theory Spec2Isabelle
  imports Main
begin

section \<open>Data model of \<open>src/index.ts\<close>\<close>

text \<open>
  The program is one TypeScript module: a \<open>Board\<close> class (an 8x8 grid of optional
  pieces, a selection marker, a renderer into the DOM) and a click handler that keeps one
  module-level variable \<open>sourceSquare\<close>. File and rank are JavaScript numbers; the
  renderer only ever produces integers, so they are modelled as \<open>int\<close>.
\<close>

text \<open>\<open>const SIZE = 8\<close>\<close>

definition SIZE :: int where
  "SIZE = 8"

text \<open>\<open>enum Color { WHITE = 0, BLACK = 1 }\<close>; \<open>Color_value\<close> is the enum's number.\<close>

datatype Color = WHITE | BLACK

fun Color_value :: "Color \<Rightarrow> nat" where
  "Color_value WHITE = 0"
| "Color_value BLACK = 1"

text \<open>
  A JavaScript string is a sequence of UTF-16 code units; each glyph of the program is
  one code unit (the white rook is the unit \<open>0x2656\<close>).
\<close>

type_synonym js_string = "nat list"

text \<open>
  \<open>class PieceType\<close>: only the six static instances are ever constructed, so the
  class is an enumeration and its field \<open>character\<close> (glyphs for white and black) a
  function on it.
\<close>

datatype PieceType = ROOK | KNIGHT | BISHOP | KING | QUEEN | PAWN

fun character :: "PieceType \<Rightarrow> js_string list" where
  "character ROOK = [[0x2656], [0x265C]]"
| "character KNIGHT = [[0x2658], [0x265E]]"
| "character BISHOP = [[0x2657], [0x265D]]"
| "character KING = [[0x2654], [0x265A]]"
| "character QUEEN = [[0x2655], [0x265B]]"
| "character PAWN = [[0x2659], [0x265F]]"

definition INITIAL :: "PieceType list" where
  "INITIAL = [ROOK, KNIGHT, BISHOP, QUEEN, KING, BISHOP, KNIGHT, ROOK]"

text \<open>\<open>class Piece\<close>, immutable; never compared by reference, so a value.\<close>

record Piece =
  pieceType :: PieceType
  color :: Color

text \<open>
  \<open>Piece.character()\<close>: \<open>this.pieceType.character[this.color]\<close>. The index is 0 or
  1 and every glyph array has two entries, so the read is always in range.
\<close>

definition Piece_character :: "Piece \<Rightarrow> js_string" where
  "Piece_character p = character (pieceType p) ! Color_value (color p)"

text \<open>
  \<open>type SquareContent = Piece | null\<close>. At run time a read past the end of an array
  yields \<open>undefined\<close>, which the static type does not exclude and which the handler can
  store back into the grid, so the run-time values of a square are three.
\<close>

datatype SquareContent = Undefined | Null | Occupied Piece

record SquarePosition =
  "file" :: int
  rank :: int

text \<open>
  A JavaScript array of square contents (one file of the board, \<open>rankPieces\<close> in the
  constructor): the elements at the indices \<open>0 .. length - 1\<close>, and the properties
  stored under keys that are not array indices (a negative number). A hole reads as
  \<open>undefined\<close> and is stored as such. Every non-negative integer is taken as an index;
  the program never reads \<open>length\<close>, so a key past the largest array index reads and
  writes the same.
\<close>

record SquareContentArray =
  items :: "SquareContent list"
  others :: "(int \<times> SquareContent) list"

definition empty_array :: SquareContentArray where
  "empty_array = \<lparr>items = [], others = []\<rparr>"

text \<open>\<open>a.push(v)\<close>\<close>

definition push :: "SquareContentArray \<Rightarrow> SquareContent \<Rightarrow> SquareContentArray" where
  "push a v = a\<lparr>items := items a @ [v]\<rparr>"

text \<open>\<open>a[i]\<close>: the element, the property stored under \<open>i\<close>, or \<open>undefined\<close>.\<close>

definition array_read :: "SquareContentArray \<Rightarrow> int \<Rightarrow> SquareContent" where
  "array_read a i =
     (if 0 \<le> i then
        (if nat i < length (items a) then items a ! nat i else Undefined)
      else (case map_of (others a) i of None \<Rightarrow> Undefined | Some v \<Rightarrow> v))"

text \<open>
  \<open>a[i] = v\<close>: replaces the element; past the end the array grows, the indices in
  between being holes; a negative \<open>i\<close> names an ordinary property.
\<close>

definition array_write :: "SquareContentArray \<Rightarrow> int \<Rightarrow> SquareContent \<Rightarrow> SquareContentArray" where
  "array_write a i v =
     (if 0 \<le> i then
        (if nat i < length (items a) then a\<lparr>items := (items a)[nat i := v]\<rparr>
         else a\<lparr>items := items a @ replicate (nat i - length (items a)) Undefined @ [v]\<rparr>)
      else a\<lparr>others := (i, v) # filter (\<lambda>kv. fst kv \<noteq> i) (others a)\<rparr>)"

text \<open>
  \<open>class Board\<close>. The outer array \<open>squares\<close> is only pushed to and read, so it is a
  list; \<open>this.squares[file]\<close> is \<open>undefined\<close> (here \<open>None\<close>) outside it. The field
  \<open>onSquareClick\<close> is assigned once, to the handler below.
\<close>

record Board =
  squares :: "SquareContentArray list"
  selectedSquare :: "SquarePosition option"

definition squares_read :: "SquareContentArray list \<Rightarrow> int \<Rightarrow> SquareContentArray option" where
  "squares_read sq i = (if 0 \<le> i \<and> nat i < length sq then Some (sq ! nat i) else None)"

text \<open>Reading or writing a property of \<open>undefined\<close> throws a \<open>TypeError\<close>.\<close>

datatype js_error = TypeError

subsection \<open>The constructor\<close>

text \<open>
  The conditional expression that chooses the piece of a square (lines 83 to 88);
  \<open>f\<close> and \<open>r\<close> stand for the loop variables \<open>file\<close> and \<open>rank\<close> throughout.
\<close>

definition initial_piece :: "int \<Rightarrow> int \<Rightarrow> SquareContent" where
  "initial_piece f r =
     (if r = 0 then Occupied \<lparr>pieceType = INITIAL ! nat f, color = WHITE\<rparr>
      else if r = 1 then Occupied \<lparr>pieceType = PAWN, color = WHITE\<rparr>
      else if r = 6 then Occupied \<lparr>pieceType = PAWN, color = BLACK\<rparr>
      else if r = 7 then Occupied \<lparr>pieceType = INITIAL ! nat f, color = BLACK\<rparr>
      else Null)"

text \<open>The inner loop \<open>for (let rank = 0; rank < SIZE; rank++)\<close>.\<close>

function constructor_ranks :: "int \<Rightarrow> int \<Rightarrow> SquareContentArray \<Rightarrow> SquareContentArray" where
  "constructor_ranks f r rankPieces =
     (if r < SIZE
      then constructor_ranks f (r + 1) (push rankPieces (initial_piece f r))
      else rankPieces)"
  by pat_completeness auto
termination
  by (relation "measure (\<lambda>(f, r, rankPieces). nat (SIZE - r))") auto

declare constructor_ranks.simps [simp del]

text \<open>The outer loop \<open>for (let file = 0; file < SIZE; file++)\<close>.\<close>

function constructor_files :: "int \<Rightarrow> SquareContentArray list \<Rightarrow> SquareContentArray list" where
  "constructor_files f sq =
     (if f < SIZE
      then constructor_files (f + 1) (sq @ [constructor_ranks f 0 empty_array])
      else sq)"
  by pat_completeness auto
termination
  by (relation "measure (\<lambda>(f, sq). nat (SIZE - f))") auto

declare constructor_files.simps [simp del]

definition Board_new :: Board where
  "Board_new = \<lparr>squares = constructor_files 0 [], selectedSquare = None\<rparr>"

subsection \<open>\<open>get\<close> and \<open>set\<close>\<close>

text \<open>\<open>return this.squares[pos.file][pos.rank]\<close>\<close>

definition get :: "Board \<Rightarrow> SquarePosition \<Rightarrow> js_error + SquareContent" where
  "get b pos =
     (case squares_read (squares b) (file pos) of
        None \<Rightarrow> Inl TypeError
      | Some col \<Rightarrow> Inr (array_read col (rank pos)))"

text \<open>\<open>this.squares[pos.file][pos.rank] = piece\<close>; the file array is mutated in place.\<close>

definition set_square :: "Board \<Rightarrow> SquarePosition \<Rightarrow> SquareContent \<Rightarrow> js_error + Board" where
  "set_square b pos piece =
     (case squares_read (squares b) (file pos) of
        None \<Rightarrow> Inl TypeError
      | Some col \<Rightarrow>
          Inr (b\<lparr>squares := (squares b)[nat (file pos) := array_write col (rank pos) piece]\<rparr>))"

subsection \<open>The DOM, as far as the program uses it\<close>

text \<open>
  An element has a tag, a class list, the click listeners registered on it and its child
  nodes; a child node is an element or a text node. A listener of this program is the
  closure \<open>() => this.onSquareClick(file, rank)\<close>, so it is the pair it captured.
\<close>

datatype Element =
  Element (tagName: string) (classList: "string list") (clickListeners: "(int \<times> int) list")
    (childNodes: "Node list")
and Node = ElementNode Element | TextNode js_string

text \<open>\<open>e.children\<close>: the child nodes that are elements.\<close>

fun element_of :: "Node \<Rightarrow> Element list" where
  "element_of (ElementNode e) = [e]"
| "element_of (TextNode text) = []"

definition children :: "Element \<Rightarrow> Element list" where
  "children e = concat (map element_of (childNodes e))"

text \<open>\<open>document.createElement(tag)\<close>\<close>

definition createElement :: "string \<Rightarrow> Element" where
  "createElement tag = Element tag [] [] []"

text \<open>\<open>e.classList.add(token)\<close>: a class list holds a token once.\<close>

definition classList_add :: "string \<Rightarrow> Element \<Rightarrow> Element" where
  "classList_add token e =
     (if token \<in> set (classList e) then e
      else Element (tagName e) (classList e @ [token]) (clickListeners e) (childNodes e))"

text \<open>\<open>e.classList.toggle(token, force)\<close>: adds the token when forced on, removes it otherwise.\<close>

definition classList_toggle :: "string \<Rightarrow> bool \<Rightarrow> Element \<Rightarrow> Element" where
  "classList_toggle token force e =
     (if force then classList_add token e
      else Element (tagName e) (filter (\<lambda>t. t \<noteq> token) (classList e)) (clickListeners e)
             (childNodes e))"

text \<open>
  \<open>e.innerText = text\<close> replaces all child nodes of the element by one text node, or by
  none when the text is empty. (A line break in the text would become a \<open>br\<close> element;
  the glyphs of this program have none.)
\<close>

definition set_innerText :: "js_string \<Rightarrow> Element \<Rightarrow> Element" where
  "set_innerText text e =
     Element (tagName e) (classList e) (clickListeners e) (if text = [] then [] else [TextNode text])"

text \<open>\<open>e.addEventListener("click", () => this.onSquareClick(file, rank))\<close>\<close>

definition addEventListener_click :: "int \<times> int \<Rightarrow> Element \<Rightarrow> Element" where
  "addEventListener_click l e =
     Element (tagName e) (classList e) (clickListeners e @ [l]) (childNodes e)"

text \<open>\<open>e.append(child)\<close>, the child being an element.\<close>

definition append_child :: "Element \<Rightarrow> Element \<Rightarrow> Element" where
  "append_child e child =
     Element (tagName e) (classList e) (clickListeners e) (childNodes e @ [ElementNode child])"

text \<open>\<open>e.removeChild(e.firstChild)\<close>: the first child node, element or text.\<close>

definition remove_firstChild :: "Element \<Rightarrow> Element" where
  "remove_firstChild e =
     Element (tagName e) (classList e) (clickListeners e) (tl (childNodes e))"

text \<open>
  \<open>clearElement\<close>: \<open>while (e.firstChild) { e.removeChild(e.firstChild); }\<close>;
  \<open>e.firstChild\<close> is \<open>null\<close> when the element has no child node.
\<close>

function clearElement :: "Element \<Rightarrow> Element" where
  "clearElement e = (if childNodes e \<noteq> [] then clearElement (remove_firstChild e) else e)"
  by pat_completeness auto
termination
  by (relation "measure (\<lambda>e. length (childNodes e))") (auto simp: remove_firstChild_def)

declare clearElement.simps [simp del]

subsection \<open>\<open>draw\<close>\<close>

text \<open>
  JavaScript's \<open>%\<close> is the remainder of the division that truncates towards zero: it
  has the sign of the dividend.
\<close>

definition js_rem :: "int \<Rightarrow> int \<Rightarrow> int" where
  "js_rem a n = sgn a * (\<bar>a\<bar> mod \<bar>n\<bar>)"

text \<open>
  The condition of lines 124 to 126: \<open>this.selectedSquare !== null && this.selectedSquare.file
  === file && this.selectedSquare.rank === rank\<close>.
\<close>

definition is_selected :: "Board \<Rightarrow> int \<Rightarrow> int \<Rightarrow> bool" where
  "is_selected b f r =
     (case selectedSquare b of None \<Rightarrow> False | Some sel \<Rightarrow> file sel = f \<and> rank sel = r)"

text \<open>
  The body of the inner loop (lines 117 to 133), which builds \<open>squareElement\<close>.
  \<open>this.squares[file][rank]\<close> throws when \<open>this.squares[file]\<close> is \<open>undefined\<close>, and
  \<open>piece.character()\<close> throws when \<open>piece\<close> is \<open>undefined\<close>, which passes the test
  \<open>piece !== null\<close>.
\<close>

definition draw_square :: "Board \<Rightarrow> int \<Rightarrow> int \<Rightarrow> js_error + Element" where
  "draw_square b r f =
     (case squares_read (squares b) f of
        None \<Rightarrow> Inl TypeError
      | Some col \<Rightarrow>
          (let piece = array_read col r;
               isDark = (js_rem (r + f) 2 = 0);
               e1 = classList_add ''square'' (createElement ''div'');
               e2 = classList_toggle ''square-light'' (\<not> isDark) e1;
               e3 = classList_toggle ''square-dark'' isDark e2;
               e4 = (if is_selected b f r then classList_add ''square-selected'' e3 else e3)
           in (case piece of
                 Null \<Rightarrow> Inr (addEventListener_click (f, r) e4)
               | Occupied p \<Rightarrow> Inr (addEventListener_click (f, r) (set_innerText (Piece_character p) e4))
               | Undefined \<Rightarrow> Inl TypeError)))"

text \<open>
  The inner loop \<open>for (let file = 0; file < SIZE; file++)\<close>, appending to
  \<open>rankElement\<close>.
\<close>

function draw_files :: "Board \<Rightarrow> int \<Rightarrow> int \<Rightarrow> Element \<Rightarrow> js_error + Element" where
  "draw_files b r f rankElement =
     (if f < SIZE then
        (case draw_square b r f of
           Inl err \<Rightarrow> Inl err
         | Inr squareElement \<Rightarrow> draw_files b r (f + 1) (append_child rankElement squareElement))
      else Inr rankElement)"
  by pat_completeness auto
termination
  by (relation "measure (\<lambda>(b, r, f, rankElement). nat (SIZE - f))") auto

declare draw_files.simps [simp del]

text \<open>
  The outer loop \<open>for (let rank = SIZE - 1; rank >= 0; rank--)\<close>. The source appends
  \<open>rankElement\<close> to the element before it fills it; the element holds a reference, so the
  tree is the one built here.
\<close>

function draw_ranks :: "Board \<Rightarrow> int \<Rightarrow> Element \<Rightarrow> js_error + Element" where
  "draw_ranks b r element =
     (if r \<ge> 0 then
        (case draw_files b r 0 (classList_add ''rank'' (createElement ''div'')) of
           Inl err \<Rightarrow> Inl err
         | Inr rankElement \<Rightarrow> draw_ranks b (r - 1) (append_child element rankElement))
      else Inr element)"
  by pat_completeness auto
termination
  by (relation "measure (\<lambda>(b, r, element). nat (r + 1))") auto

declare draw_ranks.simps [simp del]

definition draw :: "Board \<Rightarrow> Element \<Rightarrow> js_error + Element" where
  "draw b element = draw_ranks b (SIZE - 1) (clearElement element)"

subsection \<open>The click handler\<close>

text \<open>
  The state of the page: the board, the module variable \<open>sourceSquare\<close>, and the
  \<open>body\<close> element the board is drawn into.
\<close>

record Page =
  board :: Board
  sourceSquare :: "SquarePosition option"
  body :: Element

text \<open>
  The relocation of lines 153 to 156: \<open>board.set(pos, board.get(sourceSquare));
  board.set(sourceSquare, null)\<close> when the two positions differ.
\<close>

definition relocate :: "Board \<Rightarrow> SquarePosition \<Rightarrow> SquarePosition \<Rightarrow> js_error + Board" where
  "relocate b src pos =
     (if file pos \<noteq> file src \<or> rank pos \<noteq> rank src then
        (case get b src of
           Inl err \<Rightarrow> Inl err
         | Inr moved \<Rightarrow>
             (case set_square b pos moved of
                Inl err \<Rightarrow> Inl err
              | Inr b1 \<Rightarrow> set_square b1 src Null))
      else Inr b)"

text \<open>Lines 145 to 160 of the handler: everything before the redraw.\<close>

definition click_update :: "int \<Rightarrow> int \<Rightarrow> Page \<Rightarrow> js_error + Page" where
  "click_update f r s =
     (let pos = \<lparr>file = f, rank = r\<rparr> in
      case get (board s) pos of
        Inl err \<Rightarrow> Inl err
      | Inr piece \<Rightarrow>
          (case sourceSquare s of
             None \<Rightarrow>
               (if piece \<noteq> Null
                then Inr (s\<lparr>board := (board s)\<lparr>selectedSquare := Some pos\<rparr>, sourceSquare := Some pos\<rparr>)
                else Inr s)
           | Some src \<Rightarrow>
               (case relocate (board s) src pos of
                  Inl err \<Rightarrow> Inl err
                | Inr b \<Rightarrow> Inr (s\<lparr>board := b\<lparr>selectedSquare := None\<rparr>, sourceSquare := None\<rparr>))))"

text \<open>\<open>board.onSquareClick\<close>: the update, then \<open>board.draw(body)\<close>.\<close>

definition onSquareClick :: "int \<Rightarrow> int \<Rightarrow> Page \<Rightarrow> js_error + Page" where
  "onSquareClick f r s =
     (case click_update f r s of
        Inl err \<Rightarrow> Inl err
      | Inr s1 \<Rightarrow>
          (case draw (board s1) (body s1) of
             Inl err \<Rightarrow> Inl err
           | Inr element \<Rightarrow> Inr (s1\<lparr>body := element\<rparr>)))"

text \<open>
  The module's top level (lines 140 to 163), run on the document's \<open>body\<close>: a new
  board, no source square, and a first \<open>board.draw(body)\<close>.
\<close>

definition main :: "Element \<Rightarrow> js_error + Page" where
  "main document_body =
     (case draw Board_new document_body of
        Inl err \<Rightarrow> Inl err
      | Inr element \<Rightarrow> Inr \<lparr>board = Board_new, sourceSquare = None, body = element\<rparr>)"

text \<open>
  The click events the page can deliver: the listeners registered on the squares of the
  drawn board (the children of the children of \<open>body\<close>).
\<close>

definition rendered_listeners :: "Element \<Rightarrow> (int \<times> int) list" where
  "rendered_listeners element =
     concat (map clickListeners (concat (map children (children element))))"

text \<open>
  The states of the page: the one the top level leaves, and those a click on a drawn
  square leads to.
\<close>

inductive reachable :: "Element \<Rightarrow> Page \<Rightarrow> bool" for document_body :: Element where
  reachable_main: "main document_body = Inr s \<Longrightarrow> reachable document_body s"
| reachable_click:
    "reachable document_body s \<Longrightarrow> (f, r) \<in> set (rendered_listeners (body s)) \<Longrightarrow>
     onSquareClick f r s = Inr s' \<Longrightarrow> reachable document_body s'"

code_pred reachable .

subsection \<open>Notions used to state the properties\<close>

text \<open>A position of the 8x8 grid.\<close>

definition on_board :: "SquarePosition \<Rightarrow> bool" where
  "on_board pos = (0 \<le> file pos \<and> file pos < SIZE \<and> 0 \<le> rank pos \<and> rank pos < SIZE)"

text \<open>A board state of the data model: eight files of eight squares, each a piece or empty.\<close>

definition grid_8x8 :: "Board \<Rightarrow> bool" where
  "grid_8x8 b =
     (length (squares b) = 8 \<and>
      list_all (\<lambda>col. length (items col) = 8 \<and> list_all (\<lambda>c. c \<noteq> Undefined) (items col)) (squares b))"

text \<open>The 64 positions, and the occupied ones among them.\<close>

definition all_positions :: "SquarePosition list" where
  "all_positions =
     concat (map (\<lambda>f. map (\<lambda>r. \<lparr>file = f, rank = r\<rparr>) [0..7]) [0..7])"

definition is_occupied :: "Board \<Rightarrow> SquarePosition \<Rightarrow> bool" where
  "is_occupied b pos = (case get b pos of Inr (Occupied p) \<Rightarrow> True | _ \<Rightarrow> False)"

definition occupied_count :: "Board \<Rightarrow> nat" where
  "occupied_count b = length (filter (is_occupied b) all_positions)"

text \<open>
  What holds of every state of the page (proved below): the board is a grid, the two
  selection markers agree, a selected square is on the board and occupied, the drawn
  squares deliver exactly the 64 clicks of the grid, and no more than 32 squares are
  occupied.
\<close>

definition page_invariant :: "Page \<Rightarrow> bool" where
  "page_invariant s =
     (grid_8x8 (board s) \<and>
      selectedSquare (board s) = sourceSquare s \<and>
      (case sourceSquare s of None \<Rightarrow> True | Some p \<Rightarrow> on_board p \<and> is_occupied (board s) p) \<and>
      set (rendered_listeners (body s)) = {(f, r). 0 \<le> f \<and> f < 8 \<and> 0 \<le> r \<and> r < 8} \<and>
      occupied_count (board s) \<le> 32)"

section \<open>Properties\<close>

subsection \<open>The new board\<close>

text \<open>
  The two array reads that the model writes with \<open>!\<close> are in range: a glyph array
  has an entry for each colour, and \<open>INITIAL\<close> one for each file of the constructor's
  loop.
\<close>

lemma character_index_in_range: "Color_value c < length (character t)"
  by (cases t; cases c) simp_all

lemma INITIAL_index_in_range: "0 \<le> f \<Longrightarrow> f < SIZE \<Longrightarrow> nat f < length INITIAL"
  by (simp add: SIZE_def INITIAL_def)

lemma Board_new_squares:
  "squares Board_new = map (\<lambda>f. \<lparr>items = map (initial_piece f) [0, 1, 2, 3, 4, 5, 6, 7], others = []\<rparr>)
     [0, 1, 2, 3, 4, 5, 6, 7]"
  by (simp add: Board_new_def constructor_files.simps constructor_ranks.simps SIZE_def push_def
      empty_array_def)

lemma grid_Board_new: "grid_8x8 Board_new"
  by (simp add: grid_8x8_def Board_new_squares initial_piece_def)

lemma get_Board_new:
  "0 \<le> f \<Longrightarrow> f < 8 \<Longrightarrow> 0 \<le> r \<Longrightarrow> r < 8 \<Longrightarrow>
     get Board_new \<lparr>file = f, rank = r\<rparr> = Inr (initial_piece f r)"
proof -
  assume a: "0 \<le> f" "f < 8" "0 \<le> r" "r < 8"
  then have "f \<in> {0, 1, 2, 3, 4, 5, 6, 7}" "r \<in> {0, 1, 2, 3, 4, 5, 6, 7}" by auto
  then show ?thesis
    by (elim insertE emptyE; simp add: get_def squares_read_def array_read_def Board_new_squares)
qed

subsection \<open>Reading and writing squares of the grid\<close>

lemma on_board_nat:
  "on_board p \<Longrightarrow> nat (file p) < 8 \<and> nat (rank p) < 8 \<and> 0 \<le> file p \<and> 0 \<le> rank p"
  by (auto simp: on_board_def SIZE_def)

lemma grid_column:
  "grid_8x8 b \<Longrightarrow> i < 8 \<Longrightarrow>
     length (items (squares b ! i)) = 8 \<and> (\<forall>j < 8. items (squares b ! i) ! j \<noteq> Undefined)"
  by (simp add: grid_8x8_def list_all_length)

lemma get_on_board:
  "grid_8x8 b \<Longrightarrow> on_board p \<Longrightarrow>
     get b p = Inr (items (squares b ! nat (file p)) ! nat (rank p))"
  using grid_column [of b "nat (file p)"] on_board_nat [of p]
  by (simp add: get_def squares_read_def array_read_def grid_8x8_def)

lemma get_defined:
  "grid_8x8 b \<Longrightarrow> on_board p \<Longrightarrow> get b p \<noteq> Inr Undefined \<and> get b p \<noteq> Inl e"
  using grid_column [of b "nat (file p)"] on_board_nat [of p]
  by (simp add: get_on_board)

lemma set_on_board:
  "grid_8x8 b \<Longrightarrow> on_board p \<Longrightarrow>
     set_square b p v =
       Inr (b\<lparr>squares := (squares b)[nat (file p) :=
              (squares b ! nat (file p))\<lparr>items := (items (squares b ! nat (file p)))[nat (rank p) := v]\<rparr>]\<rparr>)"
  using grid_column [of b "nat (file p)"] on_board_nat [of p]
  by (simp add: set_square_def squares_read_def array_write_def grid_8x8_def)

lemma set_grid:
  assumes "grid_8x8 b" "on_board p" "v \<noteq> Undefined" "set_square b p v = Inr b'"
  shows "grid_8x8 b'"
proof -
  have b': "b' = b\<lparr>squares := (squares b)[nat (file p) :=
              (squares b ! nat (file p))\<lparr>items := (items (squares b ! nat (file p)))[nat (rank p) := v]\<rparr>]\<rparr>"
    using assms set_on_board [of b p v] by simp
  show ?thesis
    unfolding b' using assms(1,3) grid_column [of b "nat (file p)"] on_board_nat [OF assms(2)]
    by (auto simp: grid_8x8_def list_all_length nth_list_update)
qed

lemma set_selected:
  "set_square b p v = Inr b' \<Longrightarrow> selectedSquare b' = selectedSquare b"
  by (auto simp: set_square_def split: option.splits)

lemma position_eq:
  "on_board p \<Longrightarrow> on_board q \<Longrightarrow>
     (q = p) = (nat (file q) = nat (file p) \<and> nat (rank q) = nat (rank p))"
  by (auto simp: on_board_def SIZE_def)

lemma get_set:
  assumes "grid_8x8 b" "on_board p" "on_board q" "v \<noteq> Undefined" "set_square b p v = Inr b'"
  shows "get b' q = (if q = p then Inr v else get b q)"
proof -
  have g': "grid_8x8 b'" using assms(1,2,4,5) by (rule set_grid)
  have b': "b' = b\<lparr>squares := (squares b)[nat (file p) :=
              (squares b ! nat (file p))\<lparr>items := (items (squares b ! nat (file p)))[nat (rank p) := v]\<rparr>]\<rparr>"
    using assms set_on_board [of b p v] by simp
  have len: "length (squares b) = 8" using assms(1) by (simp add: grid_8x8_def)
  have "get b' q = Inr (items (squares b' ! nat (file q)) ! nat (rank q))"
    by (rule get_on_board [OF g' assms(3)])
  then show ?thesis
    using grid_column [OF assms(1), of "nat (file p)"] on_board_nat [OF assms(2)]
      on_board_nat [OF assms(3)] len
    by (simp add: get_on_board [OF assms(1) assms(3)]
        position_eq [OF assms(2) assms(3)] b' nth_list_update)
qed


lemma position_neq:
  "(pos \<noteq> (src::SquarePosition)) = (file pos \<noteq> file src \<or> rank pos \<noteq> rank src)"
  by (cases pos, cases src) auto

lemma get_cases:
  assumes "grid_8x8 b" "on_board p"
  shows "get b p = Inr Null \<or> (\<exists>x. get b p = Inr (Occupied x))"
proof -
  have "get b p \<noteq> Inr Undefined"
    using get_defined [OF assms] by simp
  moreover obtain v where "get b p = Inr v"
    using get_on_board [OF assms] by simp
  ultimately show ?thesis by (cases v) auto
qed

lemma relocate_on_board:
  assumes g: "grid_8x8 b" and src: "on_board src" and pos: "on_board pos" and ne: "pos \<noteq> src"
  shows "\<exists>b'. relocate b src pos = Inr b' \<and> grid_8x8 b' \<and> selectedSquare b' = selectedSquare b \<and>
           (\<forall>q. on_board q \<longrightarrow>
              get b' q = (if q = src then Inr Null else if q = pos then get b src else get b q))"
proof -
  obtain v where v: "get b src = Inr v" and vd: "v \<noteq> Undefined"
    using get_on_board [OF g src] get_defined [OF g src] by auto
  obtain b1 where b1: "set_square b pos v = Inr b1"
    using set_on_board [OF g pos] by simp
  have g1: "grid_8x8 b1" by (rule set_grid [OF g pos vd b1])
  obtain b2 where b2: "set_square b1 src Null = Inr b2"
    using set_on_board [OF g1 src] by simp
  have g2: "grid_8x8 b2" by (rule set_grid [OF g1 src _ b2]) simp
  have rel: "relocate b src pos = Inr b2"
    using ne by (simp add: relocate_def position_neq v b1 b2)
  have sel: "selectedSquare b2 = selectedSquare b"
    using set_selected [OF b1] set_selected [OF b2] by simp
  have cells: "get b2 q = (if q = src then Inr Null else if q = pos then get b src else get b q)"
    if q: "on_board q" for q
    using get_set [OF g1 src q _ b2] get_set [OF g pos q vd b1] v by simp
  show ?thesis using rel g2 sel cells by blast
qed

subsection \<open>What \<open>draw\<close> builds\<close>

lemma clearElement_eq:
  "clearElement e = Element (tagName e) (classList e) (clickListeners e) []"
proof (induction e rule: clearElement.induct)
  case (1 e)
  show ?case
  proof (cases "childNodes e = []")
    case True
    then show ?thesis by (cases e) (simp add: clearElement.simps)
  next
    case False
    then show ?thesis
      using "1.IH" by (subst clearElement.simps) (simp add: remove_firstChild_def)
  qed
qed

lemma children_ElementNodes [simp]:
  "children (Element t cl ls (map (\<lambda>x. ElementNode (g x)) xs)) = map g xs"
  by (induction xs) (simp_all add: children_def)

lemma draw_files_map:
  assumes "\<And>f'. f \<le> f' \<Longrightarrow> f' < 8 \<Longrightarrow> draw_square b r f' = Inr (g f')"
  shows "f \<le> 8 \<Longrightarrow> draw_files b r f e =
           Inr (Element (tagName e) (classList e) (clickListeners e)
                  (childNodes e @ map (\<lambda>x. ElementNode (g x)) [f..7]))"
  using assms
proof (induction b r f e rule: draw_files.induct)
  case (1 b r f e)
  show ?case
  proof (cases "f < 8")
    case True
    have sq: "draw_square b r f = Inr (g f)" using "1.prems"(2) True by simp
    have "draw_files b r (f + 1) (append_child e (g f)) =
            Inr (Element (tagName (append_child e (g f))) (classList (append_child e (g f)))
                  (clickListeners (append_child e (g f)))
                  (childNodes (append_child e (g f)) @ map (\<lambda>x. ElementNode (g x)) [f + 1..7]))"
      using True "1.prems"(2) by (intro "1.IH" [OF _ sq]) (auto simp: SIZE_def)
    then show ?thesis
      using True sq by (subst draw_files.simps) (simp add: SIZE_def append_child_def upto_rec1 [of f 7])
  next
    case False
    then have "f = 8" using "1.prems"(1) by simp
    then show ?thesis by (cases e) (simp add: draw_files.simps SIZE_def)
  qed
qed

lemma draw_ranks_map:
  assumes "\<And>r'. 0 \<le> r' \<Longrightarrow> r' \<le> r \<Longrightarrow>
             draw_files b r' 0 (classList_add ''rank'' (createElement ''div'')) = Inr (h r')"
  shows "-1 \<le> r \<Longrightarrow> draw_ranks b r e =
           Inr (Element (tagName e) (classList e) (clickListeners e)
                  (childNodes e @ map (\<lambda>x. ElementNode (h x)) (rev [0..r])))"
  using assms
proof (induction b r e rule: draw_ranks.induct)
  case (1 b r e)
  show ?case
  proof (cases "0 \<le> r")
    case True
    have row: "draw_files b r 0 (classList_add ''rank'' (createElement ''div'')) = Inr (h r)"
      using "1.prems"(2) True by simp
    have "draw_ranks b (r - 1) (append_child e (h r)) =
            Inr (Element (tagName (append_child e (h r))) (classList (append_child e (h r)))
                  (clickListeners (append_child e (h r)))
                  (childNodes (append_child e (h r)) @ map (\<lambda>x. ElementNode (h x)) (rev [0..r - 1])))"
      using True "1.prems"(2) by (intro "1.IH" [OF _ row]) auto
    then show ?thesis
      using True row by (subst draw_ranks.simps) (simp add: append_child_def upto_rec2 [of 0 r])
  next
    case False
    then have "r = -1" using "1.prems"(1) by simp
    then show ?thesis by (cases e) (simp add: draw_ranks.simps)
  qed
qed

lemma Piece_character_nonempty: "Piece_character p \<noteq> []"
  by (cases "pieceType p"; cases "color p") (simp_all add: Piece_character_def)

lemma Piece_character_table:
  "Piece_character p =
     (case pieceType p of
        ROOK \<Rightarrow> (case color p of WHITE \<Rightarrow> [0x2656] | BLACK \<Rightarrow> [0x265C])
      | KNIGHT \<Rightarrow> (case color p of WHITE \<Rightarrow> [0x2658] | BLACK \<Rightarrow> [0x265E])
      | BISHOP \<Rightarrow> (case color p of WHITE \<Rightarrow> [0x2657] | BLACK \<Rightarrow> [0x265D])
      | KING \<Rightarrow> (case color p of WHITE \<Rightarrow> [0x2654] | BLACK \<Rightarrow> [0x265A])
      | QUEEN \<Rightarrow> (case color p of WHITE \<Rightarrow> [0x2655] | BLACK \<Rightarrow> [0x265B])
      | PAWN \<Rightarrow> (case color p of WHITE \<Rightarrow> [0x2659] | BLACK \<Rightarrow> [0x265F]))"
  by (cases "pieceType p"; cases "color p") (simp_all add: Piece_character_def)

lemma js_rem_2: "0 \<le> a \<Longrightarrow> js_rem a 2 = a mod 2"
  by (cases "a = 0") (simp_all add: js_rem_def)

lemma is_selected_eq:
  "is_selected b f r = (selectedSquare b = Some \<lparr>file = f, rank = r\<rparr>)"
  by (cases "selectedSquare b") (auto simp: is_selected_def)

lemma draw_square_on_board:
  assumes g: "grid_8x8 b" and f: "0 \<le> f" "f < 8" and r: "0 \<le> r" "r < 8"
  shows "\<exists>c. draw_square b r f = Inr c \<and> clickListeners c = [(f, r)] \<and>
           (''square-dark'' \<in> set (classList c) \<longleftrightarrow> (f + r) mod 2 = 0) \<and>
           (''square-light'' \<in> set (classList c) \<longleftrightarrow> (f + r) mod 2 \<noteq> 0) \<and>
           (''square-selected'' \<in> set (classList c) \<longleftrightarrow> is_selected b f r) \<and>
           (case get b \<lparr>file = f, rank = r\<rparr> of
              Inr (Occupied p) \<Rightarrow> childNodes c = [TextNode (Piece_character p)]
            | _ \<Rightarrow> childNodes c = [])"
proof -
  let ?pos = "\<lparr>file = f, rank = r\<rparr>"
  have ob: "on_board ?pos" using f r by (simp add: on_board_def SIZE_def)
  have rd: "squares_read (squares b) f = Some (squares b ! nat f)"
    using g f by (simp add: squares_read_def grid_8x8_def)
  have gt: "get b ?pos = Inr (array_read (squares b ! nat f) r)"
    by (simp add: get_def rd)
  have rem: "js_rem (r + f) 2 = (f + r) mod 2"
    using f r by (simp add: js_rem_2 add.commute)
  from get_cases [OF g ob] show ?thesis
  proof
    assume "get b ?pos = Inr Null"
    then show ?thesis using gt
      by (simp add: draw_square_def rd rem Let_def classList_add_def classList_toggle_def
          createElement_def addEventListener_click_def)
  next
    assume "\<exists>x. get b ?pos = Inr (Occupied x)"
    then show ?thesis using gt
      by (auto simp: draw_square_def rd rem Let_def classList_add_def classList_toggle_def
          createElement_def addEventListener_click_def set_innerText_def Piece_character_nonempty)
  qed
qed

lemma nth_rev_upto: "0 \<le> r \<Longrightarrow> r < 8 \<Longrightarrow> rev [0..7] ! nat (7 - r) = r"
  by (simp add: rev_nth nth_upto) 

lemma nth_upto_0: "0 \<le> f \<Longrightarrow> f < 8 \<Longrightarrow> [0..7] ! nat f = f"
  by (simp add: nth_upto)

lemma draw_on_grid:
  assumes g: "grid_8x8 b"
  shows "draw b e =
     Inr (Element (tagName e) (classList e) (clickListeners e)
       (map (\<lambda>r. ElementNode (Element ''div'' [''rank''] []
                     (map (\<lambda>f. ElementNode (projr (draw_square b r f))) [0..7])))
          (rev [0..7])))"
proof -
  have sq: "draw_square b r f = Inr (projr (draw_square b r f))"
    if "0 \<le> f" "f < 8" "0 \<le> r" "r < 8" for f r
    using draw_square_on_board [OF g that] by auto
  have row: "draw_files b r 0 (classList_add ''rank'' (createElement ''div'')) =
      Inr (Element ''div'' [''rank''] []
             (map (\<lambda>f. ElementNode (projr (draw_square b r f))) [0..7]))"
    if r: "0 \<le> r" "r \<le> 7" for r
  proof -
    have "draw_files b r 0 (classList_add ''rank'' (createElement ''div'')) =
      Inr (Element (tagName (classList_add ''rank'' (createElement ''div'')))
             (classList (classList_add ''rank'' (createElement ''div'')))
             (clickListeners (classList_add ''rank'' (createElement ''div'')))
             (childNodes (classList_add ''rank'' (createElement ''div'')) @
                map (\<lambda>f. ElementNode (projr (draw_square b r f))) [0..7]))"
      by (rule draw_files_map) (use r in \<open>simp_all add: sq [symmetric]\<close>)
    then show ?thesis
      by (simp only: classList_add_def createElement_def Element.sel list.set empty_iff if_False
          append_Nil)
  qed
  have "draw_ranks b 7 (clearElement e) =
      Inr (Element (tagName (clearElement e)) (classList (clearElement e))
             (clickListeners (clearElement e))
             (childNodes (clearElement e) @
                map (\<lambda>r. ElementNode (Element ''div'' [''rank''] []
                      (map (\<lambda>f. ElementNode (projr (draw_square b r f))) [0..7]))) (rev [0..7])))"
    by (rule draw_ranks_map) (simp_all add: row)
  then show ?thesis
    unfolding draw_def SIZE_def
    by (simp add: clearElement_eq)
qed

lemma length_filter_eq:
  "distinct xs \<Longrightarrow> length (filter (\<lambda>x. x = a) xs) = (if a \<in> set xs then 1 else 0)"
  by (induction xs) auto

lemma rendered_listeners_draw:
  assumes g: "grid_8x8 b" and d: "draw b e = Inr e'"
  shows "set (rendered_listeners e') = {(f, r). 0 \<le> f \<and> f < 8 \<and> 0 \<le> r \<and> r < 8}"
proof -
  have l: "set (clickListeners (projr (draw_square b r f))) = {(f, r)}"
    if "f \<in> {0..7}" "r \<in> {0..7}" for f r
    using draw_square_on_board [OF g, of f r] that by auto
  have e': "e' = Element (tagName e) (classList e) (clickListeners e)
       (map (\<lambda>r. ElementNode (Element ''div'' [''rank''] []
                     (map (\<lambda>f. ElementNode (projr (draw_square b r f))) [0..7])))
          (rev [0..7]))"
    using d draw_on_grid [OF g, of e] by simp
  have "set (rendered_listeners e') =
          (\<Union>r\<in>{0..7}. \<Union>f\<in>{0..7}. set (clickListeners (projr (draw_square b r f))))"
    unfolding e' rendered_listeners_def by (simp add: image_image)
  also have "\<dots> = (\<Union>r\<in>{0..7}. \<Union>f\<in>{0..7}. {(f, r)})"
    using l by simp
  also have "\<dots> = {(f, r). 0 \<le> f \<and> f < 8 \<and> 0 \<le> r \<and> r < 8}"
    by auto
  finally show ?thesis .
qed

lemma concat_map_product:
  "concat (map (\<lambda>r. map (g r) fs) rs) = map (\<lambda>(r, f). g r f) (List.product rs fs)"
  by (induction rs) simp_all

lemma selected_cells_count:
  assumes tag: "\<And>r f. r \<in> set rs \<Longrightarrow> f \<in> set fs \<Longrightarrow> P (g r f) = (sel = Some \<lparr>file = f, rank = r\<rparr>)"
    and d: "distinct rs" "distinct fs"
  shows "length (filter P (concat (map (\<lambda>r. map (g r) fs) rs))) =
           (case sel of None \<Rightarrow> 0
            | Some p \<Rightarrow> if rank p \<in> set rs \<and> file p \<in> set fs then 1 else 0)"
proof -
  have "filter (P \<circ> (\<lambda>(r, f). g r f)) (List.product rs fs) =
          filter (\<lambda>x. sel = Some \<lparr>file = snd x, rank = fst x\<rparr>) (List.product rs fs)"
    by (rule filter_cong) (auto simp: tag)
  then have len: "length (filter P (concat (map (\<lambda>r. map (g r) fs) rs))) =
          length (filter (\<lambda>x. sel = Some \<lparr>file = snd x, rank = fst x\<rparr>) (List.product rs fs))"
    by (simp add: concat_map_product filter_map)
  show ?thesis
  proof (cases sel)
    case None
    then show ?thesis using len by simp
  next
    case (Some p)
    have "(\<lambda>x. sel = Some \<lparr>file = snd x, rank = fst x\<rparr>) = (\<lambda>x. x = (rank p, file p))"
      using Some by (cases p) auto
    then show ?thesis
      using len Some length_filter_eq [of "List.product rs fs" "(rank p, file p)"] d
      by (simp add: distinct_product)
  qed
qed

subsection \<open>The click handler, case by case\<close>

lemma position_eta: "\<lparr>file = file (p::SquarePosition), rank = rank p\<rparr> = p"
  by simp

lemma draw_total: "grid_8x8 b \<Longrightarrow> \<exists>e'. draw b e = Inr e'"
  by (simp add: draw_on_grid)

lemma is_occupied_iff: "is_occupied b p = (\<exists>x. get b p = Inr (Occupied x))"
  by (auto simp: is_occupied_def split: sum.splits SquareContent.splits)

lemma click_update_idle_occupied:
  assumes "sourceSquare s = None" "is_occupied (board s) p"
  shows "click_update (file p) (rank p) s =
           Inr (s\<lparr>board := (board s)\<lparr>selectedSquare := Some p\<rparr>, sourceSquare := Some p\<rparr>)"
  using assms by (auto simp: click_update_def Let_def position_eta is_occupied_iff)

lemma click_update_idle_empty:
  assumes "sourceSquare s = None" "get (board s) p = Inr Null"
  shows "click_update (file p) (rank p) s = Inr s"
  using assms by (simp add: click_update_def Let_def position_eta)

lemma click_update_armed_same:
  assumes "sourceSquare s = Some p" "grid_8x8 (board s)" "on_board p"
  shows "click_update (file p) (rank p) s =
           Inr (s\<lparr>board := (board s)\<lparr>selectedSquare := None\<rparr>, sourceSquare := None\<rparr>)"
proof -
  obtain v where "get (board s) p = Inr v"
    using get_on_board [OF assms(2,3)] by simp
  then show ?thesis
    using assms(1) by (simp add: click_update_def Let_def position_eta relocate_def)
qed

lemma click_update_armed_other:
  assumes "sourceSquare s = Some src" "grid_8x8 (board s)" "on_board src" "on_board pos"
    "pos \<noteq> src"
  shows "\<exists>b'. relocate (board s) src pos = Inr b' \<and>
           click_update (file pos) (rank pos) s =
             Inr (s\<lparr>board := b'\<lparr>selectedSquare := None\<rparr>, sourceSquare := None\<rparr>) \<and>
           grid_8x8 b' \<and>
           (\<forall>q. on_board q \<longrightarrow>
              get b' q = (if q = src then Inr Null else if q = pos then get (board s) src
                          else get (board s) q))"
proof -
  obtain b' where b': "relocate (board s) src pos = Inr b'" "grid_8x8 b'"
    "\<forall>q. on_board q \<longrightarrow>
       get b' q = (if q = src then Inr Null else if q = pos then get (board s) src
                   else get (board s) q)"
    using relocate_on_board [OF assms(2-5)] by blast
  obtain v where "get (board s) pos = Inr v"
    using get_on_board [OF assms(2,4)] by simp
  then have "click_update (file pos) (rank pos) s =
             Inr (s\<lparr>board := b'\<lparr>selectedSquare := None\<rparr>, sourceSquare := None\<rparr>)"
    using assms(1) b'(1) by (simp add: click_update_def Let_def position_eta)
  then show ?thesis using b' by blast
qed

lemma grid_selected_update [simp]: "grid_8x8 (b\<lparr>selectedSquare := x\<rparr>) = grid_8x8 b"
  by (simp add: grid_8x8_def)

lemma get_selected_update [simp]: "get (b\<lparr>selectedSquare := x\<rparr>) p = get b p"
  by (simp add: get_def)

lemma is_occupied_selected_update [simp]:
  "is_occupied (b\<lparr>selectedSquare := x\<rparr>) p = is_occupied b p"
  by (simp add: is_occupied_def)

lemma occupied_count_selected_update [simp]:
  "occupied_count (b\<lparr>selectedSquare := x\<rparr>) = occupied_count b"
  by (simp add: occupied_count_def cong: filter_cong)

lemma onSquareClick_redraw:
  assumes "click_update f r s = Inr s1" "grid_8x8 (board s1)"
  shows "\<exists>e. draw (board s1) (body s1) = Inr e \<and> onSquareClick f r s = Inr (s1\<lparr>body := e\<rparr>) \<and>
           set (rendered_listeners e) = {(f, r). 0 \<le> f \<and> f < 8 \<and> 0 \<le> r \<and> r < 8}"
proof -
  obtain e where e: "draw (board s1) (body s1) = Inr e"
    using draw_total [OF assms(2)] by blast
  then show ?thesis
    using assms(1) rendered_listeners_draw [OF assms(2) e] by (simp add: onSquareClick_def)
qed

subsection \<open>Counting occupied squares\<close>

lemma upto_0_7: "[0..7] = [0, 1, 2, 3, 4, 5, 6, 7]"
  by (simp add: upto.simps [of 0 7] upto.simps [of 1 7])

lemma distinct_all_positions: "distinct all_positions"
  by (simp add: all_positions_def upto_0_7)

lemma set_all_positions: "set all_positions = {p. on_board p}"
proof -
  have "p \<in> set all_positions" if "on_board p" for p
  proof -
    have "\<lparr>file = file p, rank = rank p\<rparr> \<in> set all_positions"
      using that by (simp add: all_positions_def on_board_def SIZE_def image_iff)
    then show ?thesis by (simp add: position_eta)
  qed
  moreover have "on_board p" if "p \<in> set all_positions" for p
    using that by (auto simp: all_positions_def on_board_def SIZE_def)
  ultimately show ?thesis by blast
qed

lemma occupied_count_card:
  "occupied_count b = card {p. on_board p \<and> is_occupied b p}"
proof -
  have "{x. is_occupied b x} \<inter> set all_positions = {p. on_board p \<and> is_occupied b p}"
    by (auto simp: set_all_positions)
  then show ?thesis
    by (simp add: occupied_count_def distinct_length_filter [OF distinct_all_positions])
qed

lemma finite_on_board: "finite {p. on_board p \<and> P p}"
proof -
  have "{p. on_board p \<and> P p} \<subseteq> set all_positions"
    by (auto simp: set_all_positions)
  then show ?thesis by (rule finite_subset) simp
qed

lemma occupied_count_same:
  assumes "\<And>q. on_board q \<Longrightarrow> get b' q = get b q"
  shows "occupied_count b' = occupied_count b"
proof -
  have "{p. on_board p \<and> is_occupied b' p} = {p. on_board p \<and> is_occupied b p}"
    using assms by (auto simp: is_occupied_def)
  then show ?thesis by (simp add: occupied_count_card)
qed

lemma occupied_count_relocate:
  assumes src: "on_board src" and pos: "on_board pos" and ne: "pos \<noteq> src"
    and occ: "is_occupied b src"
    and cells: "\<And>q. on_board q \<Longrightarrow>
       get b' q = (if q = src then Inr Null else if q = pos then get b src else get b q)"
  shows "occupied_count b' + (if is_occupied b pos then 1 else 0) = occupied_count b"
proof -
  let ?O = "{p. on_board p \<and> is_occupied b p}"
  let ?O' = "{p. on_board p \<and> is_occupied b' p}"
  have fin: "finite ?O" by (rule finite_on_board)
  have occ': "is_occupied b' q = (if q = src then False else if q = pos then True else is_occupied b q)"
    if "on_board q" for q
    using occ cells [OF that] by (simp add: is_occupied_def)
  have O': "?O' = insert pos (?O - {src})"
    using src pos ne occ' by (auto split: if_splits)
  have srcO: "src \<in> ?O" using src occ by simp
  have "0 < card ?O"
    using fin srcO card_gt_0_iff by blast
  then have c1: "card (?O - {src}) + 1 = card ?O"
    using fin srcO by simp
  show ?thesis
  proof (cases "is_occupied b pos")
    case True
    then have "pos \<in> ?O - {src}" using pos ne by simp
    then have "?O' = ?O - {src}" using O' by auto
    then show ?thesis using True c1 by (simp add: occupied_count_card)
  next
    case False
    then have "pos \<notin> ?O - {src}" by simp
    then have "card ?O' = card (?O - {src}) + 1"
      using O' fin by simp
    then show ?thesis using False c1 by (simp add: occupied_count_card)
  qed
qed

lemma occupied_count_Board_new: "occupied_count Board_new = 32"
  by (simp add: occupied_count_def all_positions_def upto_0_7 is_occupied_def get_Board_new
      initial_piece_def)

subsection \<open>The invariant of the page\<close>

lemma main_invariant:
  "\<exists>s0. main document_body = Inr s0 \<and> board s0 = Board_new \<and> sourceSquare s0 = None \<and>
         page_invariant s0"
proof -
  obtain e where e: "draw Board_new document_body = Inr e"
    using draw_total [OF grid_Board_new] by blast
  have "page_invariant \<lparr>board = Board_new, sourceSquare = None, body = e\<rparr>"
    using rendered_listeners_draw [OF grid_Board_new e]
    by (simp add: page_invariant_def grid_Board_new occupied_count_Board_new)
      (simp add: Board_new_def)
  then show ?thesis using e by (simp add: main_def)
qed

lemma click_invariant:
  assumes inv: "page_invariant s" and l: "(f, r) \<in> set (rendered_listeners (body s))"
  shows "\<exists>s'. onSquareClick f r s = Inr s' \<and> page_invariant s' \<and>
           (if (\<exists>src. sourceSquare s = Some src \<and> src \<noteq> \<lparr>file = f, rank = r\<rparr>) \<and>
               is_occupied (board s) \<lparr>file = f, rank = r\<rparr>
            then occupied_count (board s') + 1 = occupied_count (board s)
            else occupied_count (board s') = occupied_count (board s))"
proof -
  let ?pos = "\<lparr>file = f, rank = r\<rparr>"
  have g: "grid_8x8 (board s)" and agree: "selectedSquare (board s) = sourceSquare s"
    and cnt: "occupied_count (board s) \<le> 32"
    using inv by (simp_all add: page_invariant_def)
  have pos: "on_board ?pos"
    using inv l by (simp add: page_invariant_def on_board_def SIZE_def)
  have fr: "file ?pos = f" "rank ?pos = r" by simp_all
  show ?thesis
  proof (cases "sourceSquare s")
    case None
    from get_cases [OF g pos] show ?thesis
    proof
      assume empty: "get (board s) ?pos = Inr Null"
      have u: "click_update f r s = Inr s"
        using click_update_idle_empty [OF None empty] by simp
      obtain e where e: "onSquareClick f r s = Inr (s\<lparr>body := e\<rparr>)"
        "set (rendered_listeners e) = {(f, r). 0 \<le> f \<and> f < 8 \<and> 0 \<le> r \<and> r < 8}"
        using onSquareClick_redraw [OF u g] by blast
      have "page_invariant (s\<lparr>body := e\<rparr>)"
        using inv e(2) None by (simp add: page_invariant_def)
      then show ?thesis using e(1) None by simp
    next
      assume "\<exists>x. get (board s) ?pos = Inr (Occupied x)"
      then have occ: "is_occupied (board s) ?pos" by (simp add: is_occupied_iff)
      let ?s1 = "s\<lparr>board := (board s)\<lparr>selectedSquare := Some ?pos\<rparr>, sourceSquare := Some ?pos\<rparr>"
      have u: "click_update f r s = Inr ?s1"
        using click_update_idle_occupied [OF None occ] by simp
      have g1: "grid_8x8 (board ?s1)" using g by simp
      obtain e where e: "onSquareClick f r s = Inr (?s1\<lparr>body := e\<rparr>)"
        "set (rendered_listeners e) = {(f, r). 0 \<le> f \<and> f < 8 \<and> 0 \<le> r \<and> r < 8}"
        using onSquareClick_redraw [OF u g1] by blast
      have "page_invariant (?s1\<lparr>body := e\<rparr>)"
        using g cnt pos occ e(2) by (simp add: page_invariant_def)
      then show ?thesis using e(1) None by simp
    qed
  next
    case (Some src)
    have src: "on_board src" "is_occupied (board s) src"
      using inv Some by (simp_all add: page_invariant_def)
    show ?thesis
    proof (cases "?pos = src")
      case True
      let ?s1 = "s\<lparr>board := (board s)\<lparr>selectedSquare := None\<rparr>, sourceSquare := None\<rparr>"
      have u: "click_update f r s = Inr ?s1"
        using click_update_armed_same [OF Some g src(1)] True [symmetric] by simp
      have g1: "grid_8x8 (board ?s1)" using g by simp
      obtain e where e: "onSquareClick f r s = Inr (?s1\<lparr>body := e\<rparr>)"
        "set (rendered_listeners e) = {(f, r). 0 \<le> f \<and> f < 8 \<and> 0 \<le> r \<and> r < 8}"
        using onSquareClick_redraw [OF u g1] by blast
      have "page_invariant (?s1\<lparr>body := e\<rparr>)"
        using g cnt e(2) by (simp add: page_invariant_def)
      then show ?thesis using e(1) Some True by simp
    next
      case False
      obtain b' where b': "click_update (file ?pos) (rank ?pos) s =
             Inr (s\<lparr>board := b'\<lparr>selectedSquare := None\<rparr>, sourceSquare := None\<rparr>)"
        "grid_8x8 b'"
        "\<forall>q. on_board q \<longrightarrow>
              get b' q = (if q = src then Inr Null else if q = ?pos then get (board s) src
                          else get (board s) q)"
        using click_update_armed_other [OF Some g src(1) pos False] by blast
      let ?s1 = "s\<lparr>board := b'\<lparr>selectedSquare := None\<rparr>, sourceSquare := None\<rparr>"
      have u: "click_update f r s = Inr ?s1" using b'(1) by simp
      have g1: "grid_8x8 (board ?s1)" using b'(2) by simp
      obtain e where e: "onSquareClick f r s = Inr (?s1\<lparr>body := e\<rparr>)"
        "set (rendered_listeners e) = {(f, r). 0 \<le> f \<and> f < 8 \<and> 0 \<le> r \<and> r < 8}"
        using onSquareClick_redraw [OF u g1] by blast
      have count: "occupied_count b' + (if is_occupied (board s) ?pos then 1 else 0) =
                     occupied_count (board s)"
        using b'(3) by (intro occupied_count_relocate [OF src(1) pos False src(2)]) simp
      have "page_invariant (?s1\<lparr>body := e\<rparr>)"
        using b'(2) cnt count e(2) by (simp add: page_invariant_def split: if_splits)
      moreover have "src \<noteq> ?pos" using False by blast
      ultimately show ?thesis using e(1) Some count by (simp split: if_splits)
    qed
  qed
qed

lemma reachable_invariant: "reachable document_body s \<Longrightarrow> page_invariant s"
proof (induction rule: reachable.induct)
  case (reachable_main s)
  then show ?case using main_invariant [of document_body] by auto
next
  case (reachable_click s f r s')
  then show ?case using click_invariant [of s f r] by auto
qed

lemma onSquareClick_idle_occupied:
  assumes "sourceSquare s = None" "grid_8x8 (board s)" "is_occupied (board s) p"
  shows "\<exists>e. onSquareClick (file p) (rank p) s =
           Inr (s\<lparr>board := (board s)\<lparr>selectedSquare := Some p\<rparr>, sourceSquare := Some p,
                  body := e\<rparr>)"
proof -
  let ?s1 = "s\<lparr>board := (board s)\<lparr>selectedSquare := Some p\<rparr>, sourceSquare := Some p\<rparr>"
  have u: "click_update (file p) (rank p) s = Inr ?s1"
    by (rule click_update_idle_occupied [OF assms(1,3)])
  have "grid_8x8 (board ?s1)" using assms(2) by simp
  from onSquareClick_redraw [OF u this] show ?thesis by auto
qed

lemma onSquareClick_idle_empty:
  assumes "sourceSquare s = None" "grid_8x8 (board s)" "get (board s) p = Inr Null"
  shows "\<exists>e. onSquareClick (file p) (rank p) s = Inr (s\<lparr>body := e\<rparr>)"
proof -
  have u: "click_update (file p) (rank p) s = Inr s"
    by (rule click_update_idle_empty [OF assms(1,3)])
  from onSquareClick_redraw [OF u assms(2)] show ?thesis by auto
qed

lemma onSquareClick_armed_same:
  assumes "sourceSquare s = Some p" "grid_8x8 (board s)" "on_board p"
  shows "\<exists>e. onSquareClick (file p) (rank p) s =
           Inr (s\<lparr>board := (board s)\<lparr>selectedSquare := None\<rparr>, sourceSquare := None, body := e\<rparr>)"
proof -
  let ?s1 = "s\<lparr>board := (board s)\<lparr>selectedSquare := None\<rparr>, sourceSquare := None\<rparr>"
  have u: "click_update (file p) (rank p) s = Inr ?s1"
    by (rule click_update_armed_same [OF assms])
  have "grid_8x8 (board ?s1)" using assms(2) by simp
  from onSquareClick_redraw [OF u this] show ?thesis by auto
qed

lemma onSquareClick_armed_other:
  assumes "sourceSquare s = Some src" "grid_8x8 (board s)" "on_board src" "on_board pos"
    "pos \<noteq> src"
  shows "\<exists>b' e. onSquareClick (file pos) (rank pos) s =
             Inr (s\<lparr>board := b'\<lparr>selectedSquare := None\<rparr>, sourceSquare := None, body := e\<rparr>) \<and>
           grid_8x8 b' \<and>
           (\<forall>q. on_board q \<longrightarrow>
              get b' q = (if q = src then Inr Null else if q = pos then get (board s) src
                          else get (board s) q))"
proof -
  obtain b' where b': "click_update (file pos) (rank pos) s =
             Inr (s\<lparr>board := b'\<lparr>selectedSquare := None\<rparr>, sourceSquare := None\<rparr>)"
    "grid_8x8 b'"
    "\<forall>q. on_board q \<longrightarrow>
       get b' q = (if q = src then Inr Null else if q = pos then get (board s) src
                   else get (board s) q)"
    using click_update_armed_other [OF assms] by blast
  let ?s1 = "s\<lparr>board := b'\<lparr>selectedSquare := None\<rparr>, sourceSquare := None\<rparr>"
  have "grid_8x8 (board ?s1)" using b'(2) by simp
  from onSquareClick_redraw [OF b'(1) this] b'(2,3) show ?thesis by auto
qed


lemma armed_example:
  "\<exists>s. reachable (createElement ''body'') s \<and>
       board s = Board_new\<lparr>selectedSquare := Some \<lparr>file = 4, rank = 1\<rparr>\<rparr> \<and>
       sourceSquare s = Some \<lparr>file = 4, rank = 1\<rparr>"
proof -
  let ?p = "\<lparr>file = 4, rank = 1\<rparr>"
  obtain s0 where s0: "main (createElement ''body'') = Inr s0" "board s0 = Board_new"
    "sourceSquare s0 = None" "page_invariant s0"
    using main_invariant by blast
  have r0: "reachable (createElement ''body'') s0"
    by (rule reachable_main [OF s0(1)])
  have occ: "is_occupied (board s0) ?p"
    by (simp add: s0(2) is_occupied_def get_Board_new initial_piece_def)
  have g: "grid_8x8 (board s0)" by (simp add: s0(2) grid_Board_new)
  obtain e where e: "onSquareClick 4 1 s0 =
      Inr (s0\<lparr>board := (board s0)\<lparr>selectedSquare := Some ?p\<rparr>, sourceSquare := Some ?p, body := e\<rparr>)"
    using onSquareClick_idle_occupied [OF s0(3) g occ] by auto
  have "(4, 1) \<in> set (rendered_listeners (body s0))"
    using s0(4) by (simp add: page_invariant_def)
  from reachable_click [OF r0 this e]
  have "reachable (createElement ''body'')
          (s0\<lparr>board := (board s0)\<lparr>selectedSquare := Some ?p\<rparr>, sourceSquare := Some ?p, body := e\<rparr>)" .
  then show ?thesis
    using s0(2) by (intro exI [of _ "s0\<lparr>board := (board s0)\<lparr>selectedSquare := Some ?p\<rparr>,
      sourceSquare := Some ?p, body := e\<rparr>"]) simp
qed

subsection \<open>The claims\<close>

text \<open>
  Claim C1. On a freshly constructed board, rank 0 holds ROOK, KNIGHT, BISHOP, QUEEN, KING,
  BISHOP, KNIGHT, ROOK at the files 0 to 7 in white (the first player's colour), rank 7
  the same sequence in black, rank 1 eight white pawns, rank 6 eight black pawns, every
  square of the ranks 2 to 5 is empty, and exactly 32 squares are occupied.
\<close>

theorem initial_layout:
  "map (\<lambda>f. get Board_new \<lparr>file = f, rank = 0\<rparr>) [0..7] =
     map (\<lambda>t. Inr (Occupied \<lparr>pieceType = t, color = WHITE\<rparr>))
       [ROOK, KNIGHT, BISHOP, QUEEN, KING, BISHOP, KNIGHT, ROOK] \<and>
   map (\<lambda>f. get Board_new \<lparr>file = f, rank = 7\<rparr>) [0..7] =
     map (\<lambda>t. Inr (Occupied \<lparr>pieceType = t, color = BLACK\<rparr>))
       [ROOK, KNIGHT, BISHOP, QUEEN, KING, BISHOP, KNIGHT, ROOK] \<and>
   map (\<lambda>f. get Board_new \<lparr>file = f, rank = 1\<rparr>) [0..7] =
     replicate 8 (Inr (Occupied \<lparr>pieceType = PAWN, color = WHITE\<rparr>)) \<and>
   map (\<lambda>f. get Board_new \<lparr>file = f, rank = 6\<rparr>) [0..7] =
     replicate 8 (Inr (Occupied \<lparr>pieceType = PAWN, color = BLACK\<rparr>)) \<and>
   concat (map (\<lambda>r. map (\<lambda>f. get Board_new \<lparr>file = f, rank = r\<rparr>) [0..7]) [2..5]) =
     replicate 32 (Inr Null) \<and>
   occupied_count Board_new = 32 \<and>
   length (squares Board_new) = 8 \<and>
   selectedSquare Board_new = None"
proof -
  have r0: "map (\<lambda>f. get Board_new \<lparr>file = f, rank = 0\<rparr>) [0..7] =
     map (\<lambda>t. Inr (Occupied \<lparr>pieceType = t, color = WHITE\<rparr>))
       [ROOK, KNIGHT, BISHOP, QUEEN, KING, BISHOP, KNIGHT, ROOK]"
    by (simp add: upto_0_7 get_Board_new initial_piece_def INITIAL_def)
  have r7: "map (\<lambda>f. get Board_new \<lparr>file = f, rank = 7\<rparr>) [0..7] =
     map (\<lambda>t. Inr (Occupied \<lparr>pieceType = t, color = BLACK\<rparr>))
       [ROOK, KNIGHT, BISHOP, QUEEN, KING, BISHOP, KNIGHT, ROOK]"
    by (simp add: upto_0_7 get_Board_new initial_piece_def INITIAL_def)
  have r1: "map (\<lambda>f. get Board_new \<lparr>file = f, rank = 1\<rparr>) [0..7] =
     replicate 8 (Inr (Occupied \<lparr>pieceType = PAWN, color = WHITE\<rparr>))"
    by (simp add: upto_0_7 get_Board_new initial_piece_def eval_nat_numeral)
  have r6: "map (\<lambda>f. get Board_new \<lparr>file = f, rank = 6\<rparr>) [0..7] =
     replicate 8 (Inr (Occupied \<lparr>pieceType = PAWN, color = BLACK\<rparr>))"
    by (simp add: upto_0_7 get_Board_new initial_piece_def eval_nat_numeral)
  have mid: "concat (map (\<lambda>r. map (\<lambda>f. get Board_new \<lparr>file = f, rank = r\<rparr>) [0..7]) [2..5]) =
     replicate 32 (Inr Null)"
    by (simp add: upto_0_7 get_Board_new initial_piece_def eval_nat_numeral)
  show ?thesis
    using r0 r7 r1 r6 mid occupied_count_Board_new
    by (simp add: Board_new_squares) (simp add: Board_new_def)
qed

text \<open>
  Claim C2. In the Armed state with source square \<open>S\<close>, on every board state, a click
  on any square \<open>D\<close> other than \<open>S\<close> (whatever \<open>D\<close> holds) returns without
  error; afterwards \<open>D\<close> holds what was at \<open>S\<close>, \<open>S\<close> is empty, every other
  square is as before, the selection is cleared and the handler is back in Idle. The state
  has no component that would record what \<open>D\<close> held.
\<close>

theorem armed_click_relocates:
  assumes "grid_8x8 (board s)" "sourceSquare s = Some S" "on_board S" "on_board D" "D \<noteq> S"
  shows "\<exists>s'. onSquareClick (file D) (rank D) s = Inr s' \<and>
           get (board s') D = get (board s) S \<and>
           get (board s') S = Inr Null \<and>
           (\<forall>q. on_board q \<and> q \<noteq> D \<and> q \<noteq> S \<longrightarrow> get (board s') q = get (board s) q) \<and>
           grid_8x8 (board s') \<and>
           selectedSquare (board s') = None \<and>
           sourceSquare s' = None"
proof -
  obtain b' e where b': "onSquareClick (file D) (rank D) s =
      Inr (s\<lparr>board := b'\<lparr>selectedSquare := None\<rparr>, sourceSquare := None, body := e\<rparr>)"
    "grid_8x8 b'"
    "\<forall>q. on_board q \<longrightarrow>
       get b' q = (if q = S then Inr Null else if q = D then get (board s) S else get (board s) q)"
    using onSquareClick_armed_other [OF assms(2,1,3,4,5)] by blast
  show ?thesis
    using b'(2) b'(3) assms(3,4,5) by (simp add: b'(1))
qed

theorem armed_click_relocates_witness:
  "grid_8x8 Board_new \<and> on_board \<lparr>file = 4, rank = 1\<rparr> \<and> on_board \<lparr>file = 4, rank = 6\<rparr> \<and>
   (\<exists>s'. onSquareClick 4 6
            \<lparr>board = Board_new, sourceSquare = Some \<lparr>file = 4, rank = 1\<rparr>,
               body = createElement ''body''\<rparr> = Inr s' \<and>
         get (board s') \<lparr>file = 4, rank = 6\<rparr> = Inr (Occupied \<lparr>pieceType = PAWN, color = WHITE\<rparr>) \<and>
         get (board s') \<lparr>file = 4, rank = 1\<rparr> = Inr Null \<and>
         sourceSquare s' = None)"
proof -
  let ?S = "\<lparr>file = 4, rank = 1\<rparr>" and ?D = "\<lparr>file = 4, rank = 6\<rparr>"
  let ?s = "\<lparr>board = Board_new, sourceSquare = Some ?S, body = createElement ''body''\<rparr>"
  have S: "on_board ?S" and D: "on_board ?D" by (simp_all add: on_board_def SIZE_def)
  have "get Board_new ?S = Inr (Occupied \<lparr>pieceType = PAWN, color = WHITE\<rparr>)"
    by (simp add: get_Board_new initial_piece_def)
  then show ?thesis
    using armed_click_relocates [of ?s ?S ?D] S D grid_Board_new by auto
qed




text \<open>
  Claim C4. On every board state (an 8x8 grid) and every selection state, \<open>draw\<close>
  replaces all child nodes of the element by exactly 8 rows, the row at index \<open>7 - r\<close>
  being rank \<open>r\<close>, each of exactly 8 cells, the cell at index \<open>f\<close> being file
  \<open>f\<close> (its click listener calls the handler with \<open>(f, r)\<close>). The cell carries the
  dark tag iff \<open>f + r\<close> is even and the light tag otherwise; it carries the selected
  tag iff \<open>(f, r)\<close> is the selected square, so that none or one cell of the 64 carries
  it; it holds one text node, the glyph of the piece on the square in the piece's colour
  (the code units listed), and no node at all iff the square is empty.
\<close>

theorem draw_fidelity:
  assumes g: "grid_8x8 b"
  shows "\<exists>rows.
     draw b element =
       Inr (Element (tagName element) (classList element) (clickListeners element)
              (map ElementNode rows)) \<and>
     length rows = 8 \<and>
     list_all (\<lambda>row. length (childNodes row) = 8 \<and> length (children row) = 8) rows \<and>
     (\<forall>f r. 0 \<le> f \<and> f < 8 \<and> 0 \<le> r \<and> r < 8 \<longrightarrow>
        (let c = children (rows ! nat (7 - r)) ! nat f in
           clickListeners c = [(f, r)] \<and>
           (''square-dark'' \<in> set (classList c) \<longleftrightarrow> (f + r) mod 2 = 0) \<and>
           (''square-light'' \<in> set (classList c) \<longleftrightarrow> (f + r) mod 2 \<noteq> 0) \<and>
           (''square-selected'' \<in> set (classList c) \<longleftrightarrow>
              selectedSquare b = Some \<lparr>file = f, rank = r\<rparr>) \<and>
           (case get b \<lparr>file = f, rank = r\<rparr> of
              Inr (Occupied p) \<Rightarrow>
                childNodes c = [TextNode (Piece_character p)] \<and>
                Piece_character p =
                  (case pieceType p of
                     ROOK \<Rightarrow> (case color p of WHITE \<Rightarrow> [0x2656] | BLACK \<Rightarrow> [0x265C])
                   | KNIGHT \<Rightarrow> (case color p of WHITE \<Rightarrow> [0x2658] | BLACK \<Rightarrow> [0x265E])
                   | BISHOP \<Rightarrow> (case color p of WHITE \<Rightarrow> [0x2657] | BLACK \<Rightarrow> [0x265D])
                   | KING \<Rightarrow> (case color p of WHITE \<Rightarrow> [0x2654] | BLACK \<Rightarrow> [0x265A])
                   | QUEEN \<Rightarrow> (case color p of WHITE \<Rightarrow> [0x2655] | BLACK \<Rightarrow> [0x265B])
                   | PAWN \<Rightarrow> (case color p of WHITE \<Rightarrow> [0x2659] | BLACK \<Rightarrow> [0x265F]))
            | _ \<Rightarrow> childNodes c = []))) \<and>
     length (filter (\<lambda>c. ''square-selected'' \<in> set (classList c)) (concat (map children rows))) =
       (case selectedSquare b of None \<Rightarrow> 0 | Some p \<Rightarrow> if on_board p then 1 else 0)"
proof -
  let ?sq = "\<lambda>r f. projr (draw_square b r f)"
  let ?row = "\<lambda>r. Element ''div'' [''rank''] [] (map (\<lambda>f. ElementNode (?sq r f)) [0..7])"
  let ?rows = "map ?row (rev [0..7])"
  let ?glyph = "\<lambda>p. case pieceType p of
                     ROOK \<Rightarrow> (case color p of WHITE \<Rightarrow> [0x2656] | BLACK \<Rightarrow> [0x265C])
                   | KNIGHT \<Rightarrow> (case color p of WHITE \<Rightarrow> [0x2658] | BLACK \<Rightarrow> [0x265E])
                   | BISHOP \<Rightarrow> (case color p of WHITE \<Rightarrow> [0x2657] | BLACK \<Rightarrow> [0x265D])
                   | KING \<Rightarrow> (case color p of WHITE \<Rightarrow> [0x2654] | BLACK \<Rightarrow> [0x265A])
                   | QUEEN \<Rightarrow> (case color p of WHITE \<Rightarrow> [0x2655] | BLACK \<Rightarrow> [0x265B])
                   | PAWN \<Rightarrow> (case color p of WHITE \<Rightarrow> [0x2659] | BLACK \<Rightarrow> [0x265F :: nat])"
  have d: "draw b element =
       Inr (Element (tagName element) (classList element) (clickListeners element)
              (map ElementNode ?rows))"
    using draw_on_grid [OF g, of element] by (simp add: comp_def)
  have len: "length ?rows = 8" by simp
  have all: "list_all (\<lambda>row. length (childNodes row) = 8 \<and> length (children row) = 8) ?rows"
    by (simp add: list_all_iff)
  have cell: "children (?rows ! nat (7 - r)) ! nat f = ?sq r f"
    if "0 \<le> f" "f < 8" "0 \<le> r" "r < 8" for f r
  proof -
    have 1: "?rows ! nat (7 - r) = ?row (rev [0..7] ! nat (7 - r))"
      using that by (intro nth_map) simp
    have 2: "rev [0..7] ! nat (7 - r) = r"
      using that by (intro nth_rev_upto)
    have 3: "children (?row r) = map (?sq r) [0..7]"
      by simp
    have 4: "map (?sq r) [0..7] ! nat f = ?sq r ([0..7] ! nat f)"
      using that by (intro nth_map) simp
    have 5: "[0..7] ! nat f = f"
      using that by (intro nth_upto_0)
    show ?thesis
      by (simp only: 1 2 3 4 5)
  qed
  have props: "let c = children (?rows ! nat (7 - r)) ! nat f in
           clickListeners c = [(f, r)] \<and>
           (''square-dark'' \<in> set (classList c) \<longleftrightarrow> (f + r) mod 2 = 0) \<and>
           (''square-light'' \<in> set (classList c) \<longleftrightarrow> (f + r) mod 2 \<noteq> 0) \<and>
           (''square-selected'' \<in> set (classList c) \<longleftrightarrow>
              selectedSquare b = Some \<lparr>file = f, rank = r\<rparr>) \<and>
           (case get b \<lparr>file = f, rank = r\<rparr> of
              Inr (Occupied p) \<Rightarrow>
                childNodes c = [TextNode (Piece_character p)] \<and> Piece_character p = ?glyph p
            | _ \<Rightarrow> childNodes c = [])"
    if fr: "0 \<le> f" "f < 8" "0 \<le> r" "r < 8" for f r
  proof -
    from draw_square_on_board [OF g fr]
    obtain c where call: "draw_square b r f = Inr c \<and> clickListeners c = [(f, r)] \<and>
           (''square-dark'' \<in> set (classList c) \<longleftrightarrow> (f + r) mod 2 = 0) \<and>
           (''square-light'' \<in> set (classList c) \<longleftrightarrow> (f + r) mod 2 \<noteq> 0) \<and>
           (''square-selected'' \<in> set (classList c) \<longleftrightarrow> is_selected b f r) \<and>
           (case get b \<lparr>file = f, rank = r\<rparr> of
              Inr (Occupied p) \<Rightarrow> childNodes c = [TextNode (Piece_character p)]
            | _ \<Rightarrow> childNodes c = [])" ..
    note c = call [THEN conjunct1] call [THEN conjunct2, THEN conjunct1]
      call [THEN conjunct2, THEN conjunct2, THEN conjunct1]
      call [THEN conjunct2, THEN conjunct2, THEN conjunct2, THEN conjunct1]
      call [THEN conjunct2, THEN conjunct2, THEN conjunct2, THEN conjunct2, THEN conjunct1]
      call [THEN conjunct2, THEN conjunct2, THEN conjunct2, THEN conjunct2, THEN conjunct2]
    have "?sq r f = c" by (simp only: c(1) sum.sel)
    then have "children (?rows ! nat (7 - r)) ! nat f = c"
      using cell [OF fr] by (simp only:)
    moreover have "case get b \<lparr>file = f, rank = r\<rparr> of
              Inr (Occupied p) \<Rightarrow>
                childNodes c = [TextNode (Piece_character p)] \<and> Piece_character p = ?glyph p
            | _ \<Rightarrow> childNodes c = []"
    proof -
      have ob: "on_board \<lparr>file = f, rank = r\<rparr>"
        using fr by (simp add: on_board_def SIZE_def)
      from get_cases [OF g ob] show ?thesis
      proof
        assume n: "get b \<lparr>file = f, rank = r\<rparr> = Inr Null"
        show ?thesis using c(6) by (simp only: n sum.case SquareContent.case)
      next
        assume "\<exists>x. get b \<lparr>file = f, rank = r\<rparr> = Inr (Occupied x)"
        then obtain x where x: "get b \<lparr>file = f, rank = r\<rparr> = Inr (Occupied x)" ..
        have "childNodes c = [TextNode (Piece_character x)]"
          using c(6) by (simp only: x sum.case SquareContent.case)
        moreover have "Piece_character x = ?glyph x" by (rule Piece_character_table)
        ultimately show ?thesis by (simp only: x sum.case SquareContent.case simp_thms)
      qed
    qed
    ultimately show ?thesis
      using c(2-5) by (simp only: Let_def is_selected_eq simp_thms)
  qed
  have tag: "(''square-selected'' \<in> set (classList (?sq r f))) =
               (selectedSquare b = Some \<lparr>file = f, rank = r\<rparr>)"
    if "r \<in> set (rev [0..7])" "f \<in> set [0..7]" for r f
    using draw_square_on_board [OF g, of f r] that by (auto simp: is_selected_eq)
  have "concat (map children ?rows) = concat (map (\<lambda>r. map (?sq r) [0..7]) (rev [0..7]))"
    by (simp add: comp_def)
  then have count: "length (filter (\<lambda>c. ''square-selected'' \<in> set (classList c))
                      (concat (map children ?rows))) =
       (case selectedSquare b of None \<Rightarrow> 0 | Some p \<Rightarrow> if on_board p then 1 else 0)"
    using selected_cells_count [of "rev [0..7]" "[0..7]"
        "\<lambda>c. ''square-selected'' \<in> set (classList c)" ?sq "selectedSquare b", OF tag]
    by (auto simp: on_board_def SIZE_def split: option.splits)
  have props_all: "\<forall>f r. 0 \<le> f \<and> f < 8 \<and> 0 \<le> r \<and> r < 8 \<longrightarrow>
        (let c = children (?rows ! nat (7 - r)) ! nat f in
           clickListeners c = [(f, r)] \<and>
           (''square-dark'' \<in> set (classList c) \<longleftrightarrow> (f + r) mod 2 = 0) \<and>
           (''square-light'' \<in> set (classList c) \<longleftrightarrow> (f + r) mod 2 \<noteq> 0) \<and>
           (''square-selected'' \<in> set (classList c) \<longleftrightarrow>
              selectedSquare b = Some \<lparr>file = f, rank = r\<rparr>) \<and>
           (case get b \<lparr>file = f, rank = r\<rparr> of
              Inr (Occupied p) \<Rightarrow>
                childNodes c = [TextNode (Piece_character p)] \<and> Piece_character p = ?glyph p
            | _ \<Rightarrow> childNodes c = []))"
  proof (intro allI impI)
    fix f r :: int
    assume "0 \<le> f \<and> f < 8 \<and> 0 \<le> r \<and> r < 8"
    then have "0 \<le> f" "f < 8" "0 \<le> r" "r < 8" by simp_all
    then show "let c = children (?rows ! nat (7 - r)) ! nat f in
           clickListeners c = [(f, r)] \<and>
           (''square-dark'' \<in> set (classList c) \<longleftrightarrow> (f + r) mod 2 = 0) \<and>
           (''square-light'' \<in> set (classList c) \<longleftrightarrow> (f + r) mod 2 \<noteq> 0) \<and>
           (''square-selected'' \<in> set (classList c) \<longleftrightarrow>
              selectedSquare b = Some \<lparr>file = f, rank = r\<rparr>) \<and>
           (case get b \<lparr>file = f, rank = r\<rparr> of
              Inr (Occupied p) \<Rightarrow>
                childNodes c = [TextNode (Piece_character p)] \<and> Piece_character p = ?glyph p
            | _ \<Rightarrow> childNodes c = [])"
      by (rule props)
  qed
  show ?thesis
    apply (rule exI [of _ ?rows])
    apply (intro conjI)
        apply (rule d)
       apply (rule len)
      apply (rule all)
     apply (rule props_all)
    apply (rule count)
    done
qed

theorem draw_fidelity_witness:
  "grid_8x8 Board_new \<and>
   (\<exists>rows. draw Board_new
              (Element ''body'' [''page''] [] [TextNode [104, 105], ElementNode (createElement ''p'')]) =
            Inr (Element ''body'' [''page''] [] (map ElementNode rows)) \<and>
      length rows = 8 \<and>
      clickListeners (children (rows ! 0) ! 0) = [(0, 7)] \<and>
      ''square-light'' \<in> set (classList (children (rows ! 0) ! 0)) \<and>
      ''square-dark'' \<notin> set (classList (children (rows ! 0) ! 0)) \<and>
      ''square-selected'' \<notin> set (classList (children (rows ! 0) ! 0)) \<and>
      childNodes (children (rows ! 0) ! 0) = [TextNode [0x265C]] \<and>
      clickListeners (children (rows ! 7) ! 0) = [(0, 0)] \<and>
      ''square-dark'' \<in> set (classList (children (rows ! 7) ! 0)) \<and>
      ''square-light'' \<notin> set (classList (children (rows ! 7) ! 0)) \<and>
      childNodes (children (rows ! 7) ! 0) = [TextNode [0x2656]] \<and>
      clickListeners (children (rows ! 4) ! 2) = [(2, 3)] \<and>
      ''square-light'' \<in> set (classList (children (rows ! 4) ! 2)) \<and>
      childNodes (children (rows ! 4) ! 2) = [])"
proof -
  let ?body = "Element ''body'' [''page''] [] [TextNode [104, 105], ElementNode (createElement ''p'')]"
  from draw_fidelity [OF grid_Board_new, of ?body]
  obtain rows where rows:
    "draw Board_new ?body =
       Inr (Element (tagName ?body) (classList ?body) (clickListeners ?body) (map ElementNode rows)) \<and>
     length rows = 8 \<and>
     list_all (\<lambda>row. length (childNodes row) = 8 \<and> length (children row) = 8) rows \<and>
     (\<forall>f r. 0 \<le> f \<and> f < 8 \<and> 0 \<le> r \<and> r < 8 \<longrightarrow>
        (let c = children (rows ! nat (7 - r)) ! nat f in
           clickListeners c = [(f, r)] \<and>
           (''square-dark'' \<in> set (classList c) \<longleftrightarrow> (f + r) mod 2 = 0) \<and>
           (''square-light'' \<in> set (classList c) \<longleftrightarrow> (f + r) mod 2 \<noteq> 0) \<and>
           (''square-selected'' \<in> set (classList c) \<longleftrightarrow>
              selectedSquare Board_new = Some \<lparr>file = f, rank = r\<rparr>) \<and>
           (case get Board_new \<lparr>file = f, rank = r\<rparr> of
              Inr (Occupied p) \<Rightarrow>
                childNodes c = [TextNode (Piece_character p)] \<and>
                Piece_character p =
                  (case pieceType p of
                     ROOK \<Rightarrow> (case color p of WHITE \<Rightarrow> [0x2656] | BLACK \<Rightarrow> [0x265C])
                   | KNIGHT \<Rightarrow> (case color p of WHITE \<Rightarrow> [0x2658] | BLACK \<Rightarrow> [0x265E])
                   | BISHOP \<Rightarrow> (case color p of WHITE \<Rightarrow> [0x2657] | BLACK \<Rightarrow> [0x265D])
                   | KING \<Rightarrow> (case color p of WHITE \<Rightarrow> [0x2654] | BLACK \<Rightarrow> [0x265A])
                   | QUEEN \<Rightarrow> (case color p of WHITE \<Rightarrow> [0x2655] | BLACK \<Rightarrow> [0x265B])
                   | PAWN \<Rightarrow> (case color p of WHITE \<Rightarrow> [0x2659] | BLACK \<Rightarrow> [0x265F]))
            | _ \<Rightarrow> childNodes c = []))) \<and>
     length (filter (\<lambda>c. ''square-selected'' \<in> set (classList c)) (concat (map children rows))) =
       (case selectedSquare Board_new of None \<Rightarrow> 0 | Some p \<Rightarrow> if on_board p then 1 else 0)" ..
  note d = rows [THEN conjunct1]
  note len = rows [THEN conjunct2, THEN conjunct1]
  note cells = rows [THEN conjunct2, THEN conjunct2, THEN conjunct2, THEN conjunct1, rule_format]
  have sel: "selectedSquare Board_new = None" by (simp add: Board_new_def)
  have g07: "get Board_new \<lparr>file = 0, rank = 7\<rparr> = Inr (Occupied \<lparr>pieceType = ROOK, color = BLACK\<rparr>)"
    by (simp add: get_Board_new initial_piece_def INITIAL_def)
  have g00: "get Board_new \<lparr>file = 0, rank = 0\<rparr> = Inr (Occupied \<lparr>pieceType = ROOK, color = WHITE\<rparr>)"
    by (simp add: get_Board_new initial_piece_def INITIAL_def)
  have g23: "get Board_new \<lparr>file = 2, rank = 3\<rparr> = Inr Null"
    by (simp add: get_Board_new initial_piece_def)
  have c07: "clickListeners (children (rows ! 0) ! 0) = [(0, 7)] \<and>
      ''square-light'' \<in> set (classList (children (rows ! 0) ! 0)) \<and>
      ''square-dark'' \<notin> set (classList (children (rows ! 0) ! 0)) \<and>
      ''square-selected'' \<notin> set (classList (children (rows ! 0) ! 0)) \<and>
      childNodes (children (rows ! 0) ! 0) = [TextNode [0x265C]]"
    using cells [of 0 7] by (simp add: Let_def g07 sel)
  have c00: "clickListeners (children (rows ! 7) ! 0) = [(0, 0)] \<and>
      ''square-dark'' \<in> set (classList (children (rows ! 7) ! 0)) \<and>
      ''square-light'' \<notin> set (classList (children (rows ! 7) ! 0)) \<and>
      childNodes (children (rows ! 7) ! 0) = [TextNode [0x2656]]"
    using cells [of 0 0] by (simp add: Let_def g00 sel)
  have c23: "clickListeners (children (rows ! 4) ! 2) = [(2, 3)] \<and>
      ''square-light'' \<in> set (classList (children (rows ! 4) ! 2)) \<and>
      childNodes (children (rows ! 4) ! 2) = []"
    using cells [of 2 3] by (simp add: Let_def g23 sel)
  have d': "draw Board_new ?body = Inr (Element ''body'' [''page''] [] (map ElementNode rows))"
    using d by simp
  show ?thesis
    apply (rule conjI [OF grid_Board_new])
    apply (rule exI [of _ rows])
    using d' len c07 c00 c23 apply (simp only: simp_thms)
    done
qed

text \<open>
  Claim C5. In the Idle state, on every board state, clicking an occupied square \<open>S\<close>
  and then \<open>S\<close> again leaves the grid of pieces equal to the one before the two clicks,
  and the selection cleared (Idle again).
\<close>

theorem select_deselect_roundtrip:
  assumes "grid_8x8 (board s)" "sourceSquare s = None" "on_board S" "is_occupied (board s) S"
  shows "\<exists>s1 s2. onSquareClick (file S) (rank S) s = Inr s1 \<and>
           sourceSquare s1 = Some S \<and> selectedSquare (board s1) = Some S \<and>
           onSquareClick (file S) (rank S) s1 = Inr s2 \<and>
           squares (board s2) = squares (board s) \<and>
           selectedSquare (board s2) = None \<and>
           sourceSquare s2 = None"
proof -
  obtain e where e: "onSquareClick (file S) (rank S) s =
      Inr (s\<lparr>board := (board s)\<lparr>selectedSquare := Some S\<rparr>, sourceSquare := Some S, body := e\<rparr>)"
    using onSquareClick_idle_occupied [OF assms(2,1,4)] by blast
  let ?s1 = "s\<lparr>board := (board s)\<lparr>selectedSquare := Some S\<rparr>, sourceSquare := Some S, body := e\<rparr>"
  have "sourceSquare ?s1 = Some S" "grid_8x8 (board ?s1)" using assms(1) by simp_all
  from onSquareClick_armed_same [OF this assms(3)]
  obtain e' where e': "onSquareClick (file S) (rank S) ?s1 =
      Inr (?s1\<lparr>board := (board ?s1)\<lparr>selectedSquare := None\<rparr>, sourceSquare := None, body := e'\<rparr>)"
    by blast
  show ?thesis
    by (simp add: e e')
qed

theorem select_deselect_roundtrip_witness:
  "grid_8x8 Board_new \<and> on_board \<lparr>file = 4, rank = 1\<rparr> \<and>
   is_occupied Board_new \<lparr>file = 4, rank = 1\<rparr> \<and>
   (\<exists>s1 s2. onSquareClick 4 1
                \<lparr>board = Board_new, sourceSquare = None, body = createElement ''body''\<rparr> = Inr s1 \<and>
      onSquareClick 4 1 s1 = Inr s2 \<and> squares (board s2) = squares Board_new \<and>
      selectedSquare (board s2) = None \<and> sourceSquare s2 = None)"
proof -
  let ?S = "\<lparr>file = 4, rank = 1\<rparr>"
  let ?s = "\<lparr>board = Board_new, sourceSquare = None, body = createElement ''body''\<rparr>"
  have S: "on_board ?S" by (simp add: on_board_def SIZE_def)
  have occ: "is_occupied Board_new ?S"
    by (simp add: is_occupied_def get_Board_new initial_piece_def)
  show ?thesis
    using select_deselect_roundtrip [of ?s ?S] S occ grid_Board_new by auto
qed

text \<open>
  Claim C6. From the initial layout, the click on the drawn square (file 4, rank 1) and
  then on the drawn square (file 4, rank 3) leave (4, 1) empty, a white pawn on (4, 3), the
  selection cleared, and each of the other 62 squares as in the initial layout.
\<close>

theorem pawn_two_squares_forward:
  "\<exists>s0 s1 s2.
     main document_body = Inr s0 \<and> board s0 = Board_new \<and>
     (4, 1) \<in> set (rendered_listeners (body s0)) \<and> onSquareClick 4 1 s0 = Inr s1 \<and>
     (4, 3) \<in> set (rendered_listeners (body s1)) \<and> onSquareClick 4 3 s1 = Inr s2 \<and>
     get (board s2) \<lparr>file = 4, rank = 1\<rparr> = Inr Null \<and>
     get (board s2) \<lparr>file = 4, rank = 3\<rparr> = Inr (Occupied \<lparr>pieceType = PAWN, color = WHITE\<rparr>) \<and>
     selectedSquare (board s2) = None \<and>
     sourceSquare s2 = None \<and>
     map (get (board s2))
       (filter (\<lambda>q. q \<noteq> \<lparr>file = 4, rank = 1\<rparr> \<and> q \<noteq> \<lparr>file = 4, rank = 3\<rparr>) all_positions) =
     map (get Board_new)
       (filter (\<lambda>q. q \<noteq> \<lparr>file = 4, rank = 1\<rparr> \<and> q \<noteq> \<lparr>file = 4, rank = 3\<rparr>) all_positions) \<and>
     length (filter (\<lambda>q. q \<noteq> \<lparr>file = 4, rank = 1\<rparr> \<and> q \<noteq> \<lparr>file = 4, rank = 3\<rparr>) all_positions) = 62"
proof -
  let ?S = "\<lparr>file = 4, rank = 1\<rparr>" and ?D = "\<lparr>file = 4, rank = 3\<rparr>"
  have S: "on_board ?S" and D: "on_board ?D" by (simp_all add: on_board_def SIZE_def)
  obtain s0 where s0: "main document_body = Inr s0" "board s0 = Board_new"
    "sourceSquare s0 = None" "page_invariant s0"
    using main_invariant by blast
  have l0: "(4, 1) \<in> set (rendered_listeners (body s0))"
    using s0(4) by (simp add: page_invariant_def)
  have pawn: "get Board_new ?S = Inr (Occupied \<lparr>pieceType = PAWN, color = WHITE\<rparr>)"
    by (simp add: get_Board_new initial_piece_def)
  have occ: "is_occupied (board s0) ?S"
    by (simp add: s0(2) is_occupied_def pawn)
  have g0: "grid_8x8 (board s0)" by (simp add: s0(2) grid_Board_new)
  obtain e where e: "onSquareClick 4 1 s0 =
      Inr (s0\<lparr>board := (board s0)\<lparr>selectedSquare := Some ?S\<rparr>, sourceSquare := Some ?S, body := e\<rparr>)"
    using onSquareClick_idle_occupied [OF s0(3) g0 occ] by auto
  let ?s1 = "s0\<lparr>board := (board s0)\<lparr>selectedSquare := Some ?S\<rparr>, sourceSquare := Some ?S, body := e\<rparr>"
  have "page_invariant ?s1"
    using click_invariant [OF s0(4) l0] e by auto
  then have l1: "(4, 3) \<in> set (rendered_listeners (body ?s1))"
    by (simp add: page_invariant_def)
  have src1: "sourceSquare ?s1 = Some ?S" and g1: "grid_8x8 (board ?s1)"
    using g0 by simp_all
  have "?D \<noteq> ?S" by simp
  from onSquareClick_armed_other [OF src1 g1 S D this]
  obtain b' e' where b': "onSquareClick 4 3 ?s1 =
      Inr (?s1\<lparr>board := b'\<lparr>selectedSquare := None\<rparr>, sourceSquare := None, body := e'\<rparr>)"
    "\<forall>q. on_board q \<longrightarrow>
       get b' q = (if q = ?S then Inr Null else if q = ?D then get (board ?s1) ?S
                   else get (board ?s1) q)"
    by auto
  let ?s2 = "?s1\<lparr>board := b'\<lparr>selectedSquare := None\<rparr>, sourceSquare := None, body := e'\<rparr>"
  have cells: "get (board ?s2) q =
      (if q = ?S then Inr Null else if q = ?D then get Board_new ?S else get Board_new q)"
    if "on_board q" for q
    using b'(2) that by (simp add: s0(2))
  have others: "map (get (board ?s2)) (filter (\<lambda>q. q \<noteq> ?S \<and> q \<noteq> ?D) all_positions) =
      map (get Board_new) (filter (\<lambda>q. q \<noteq> ?S \<and> q \<noteq> ?D) all_positions)"
  proof (rule map_cong [OF refl])
    fix q assume "q \<in> set (filter (\<lambda>q. q \<noteq> ?S \<and> q \<noteq> ?D) all_positions)"
    then have "on_board q" "q \<noteq> ?S" "q \<noteq> ?D" by (simp_all add: set_all_positions)
    then show "get (board ?s2) q = get Board_new q" using cells by simp
  qed
  have len: "length (filter (\<lambda>q. q \<noteq> ?S \<and> q \<noteq> ?D) all_positions) = 62"
    by (simp add: all_positions_def upto_0_7)
  have "get (board ?s2) ?S = Inr Null"
    "get (board ?s2) ?D = Inr (Occupied \<lparr>pieceType = PAWN, color = WHITE\<rparr>)"
    using cells [OF S] cells [OF D] pawn by simp_all
  then show ?thesis
    using s0(1,2) l0 e l1 b'(1) others len
    by (intro exI [of _ s0] exI [of _ ?s1] exI [of _ ?s2]) simp
qed

text \<open>
  Claim C7. In the Idle state, on every board state, a click on an empty square leaves the
  board (every square, and its selection marker) and the source square unchanged.
\<close>

theorem idle_click_empty_noop:
  assumes "grid_8x8 (board s)" "sourceSquare s = None" "on_board S" "get (board s) S = Inr Null"
  shows "\<exists>s'. onSquareClick (file S) (rank S) s = Inr s' \<and>
           board s' = board s \<and> sourceSquare s' = sourceSquare s"
proof -
  obtain e where "onSquareClick (file S) (rank S) s = Inr (s\<lparr>body := e\<rparr>)"
    using onSquareClick_idle_empty [OF assms(2,1,4)] by blast
  then show ?thesis by simp
qed

theorem idle_click_empty_noop_witness:
  "grid_8x8 Board_new \<and> on_board \<lparr>file = 4, rank = 3\<rparr> \<and>
   get Board_new \<lparr>file = 4, rank = 3\<rparr> = Inr Null \<and>
   (\<exists>s'. onSquareClick 4 3
            \<lparr>board = Board_new, sourceSquare = None, body = createElement ''body''\<rparr> = Inr s' \<and>
         board s' = Board_new \<and> sourceSquare s' = None)"
proof -
  let ?S = "\<lparr>file = 4, rank = 3\<rparr>"
  let ?s = "\<lparr>board = Board_new, sourceSquare = None, body = createElement ''body''\<rparr>"
  have S: "on_board ?S" by (simp add: on_board_def SIZE_def)
  have empty: "get Board_new ?S = Inr Null"
    by (simp add: get_Board_new initial_piece_def)
  show ?thesis
    using idle_click_empty_noop [of ?s ?S] S empty grid_Board_new by auto
qed

text \<open>
  Claim C8. In every state reachable from the freshly constructed board by clicks on drawn
  squares, \<open>sourceSquare\<close> and the board's \<open>selectedSquare\<close> agree (both
  \<open>null\<close>, or the same square), and every further click returns a state where they
  agree.
\<close>

theorem selection_markers_agree:
  assumes "reachable document_body s"
  shows "sourceSquare s = selectedSquare (board s) \<and>
         (\<forall>f r. (f, r) \<in> set (rendered_listeners (body s)) \<longrightarrow>
            (\<exists>s'. onSquareClick f r s = Inr s' \<and> sourceSquare s' = selectedSquare (board s')))"
proof -
  have inv: "page_invariant s" by (rule reachable_invariant [OF assms])
  have "\<exists>s'. onSquareClick f r s = Inr s' \<and> sourceSquare s' = selectedSquare (board s')"
    if "(f, r) \<in> set (rendered_listeners (body s))" for f r
    using click_invariant [OF inv that] by (auto simp: page_invariant_def)
  then show ?thesis using inv by (simp add: page_invariant_def)
qed

theorem selection_markers_agree_witness:
  "\<exists>s. reachable (createElement ''body'') s \<and>
       sourceSquare s = Some \<lparr>file = 4, rank = 1\<rparr> \<and>
       selectedSquare (board s) = Some \<lparr>file = 4, rank = 1\<rparr>"
proof -
  obtain s where s: "reachable (createElement ''body'') s"
    "sourceSquare s = Some \<lparr>file = 4, rank = 1\<rparr>"
    using armed_example by blast
  have "selectedSquare (board s) = Some \<lparr>file = 4, rank = 1\<rparr>"
    using selection_markers_agree [OF s(1)] s(2) by simp
  then show ?thesis using s by blast
qed

text \<open>
  Claim C9. In every state reachable from the freshly constructed board by clicks on drawn
  squares, a set \<open>selectedSquare\<close> references a square of the board that holds a piece.
\<close>

theorem selected_square_is_occupied:
  assumes "reachable document_body s" "selectedSquare (board s) = Some p"
  shows "on_board p \<and> (\<exists>x. get (board s) p = Inr (Occupied x))"
proof -
  have "page_invariant s" by (rule reachable_invariant [OF assms(1)])
  then show ?thesis
    using assms(2) by (auto simp: page_invariant_def is_occupied_iff split: option.splits)
qed

theorem selected_square_is_occupied_witness:
  "\<exists>s. reachable (createElement ''body'') s \<and>
       selectedSquare (board s) = Some \<lparr>file = 4, rank = 1\<rparr> \<and>
       on_board \<lparr>file = 4, rank = 1\<rparr> \<and>
       (\<exists>x. get (board s) \<lparr>file = 4, rank = 1\<rparr> = Inr (Occupied x))"
proof -
  obtain s where s: "reachable (createElement ''body'') s"
    "board s = Board_new\<lparr>selectedSquare := Some \<lparr>file = 4, rank = 1\<rparr>\<rparr>"
    using armed_example by blast
  have sel: "selectedSquare (board s) = Some \<lparr>file = 4, rank = 1\<rparr>"
    by (simp add: s(2))
  from selected_square_is_occupied [OF s(1) sel] show ?thesis
    using s(1) sel by blast
qed

text \<open>
  Claim C10. In every state reachable from the freshly constructed board by clicks on drawn
  squares, at most 32 squares are occupied, and a click leaves the number of occupied
  squares unchanged, except that a relocation onto an occupied square lowers it by exactly
  one.
\<close>

theorem occupied_count_never_increases:
  assumes "reachable document_body s"
  shows "occupied_count (board s) \<le> 32 \<and>
         (\<forall>f r. (f, r) \<in> set (rendered_listeners (body s)) \<longrightarrow>
            (\<exists>s'. onSquareClick f r s = Inr s' \<and>
               (if (\<exists>src. sourceSquare s = Some src \<and> src \<noteq> \<lparr>file = f, rank = r\<rparr>) \<and>
                   is_occupied (board s) \<lparr>file = f, rank = r\<rparr>
                then occupied_count (board s') + 1 = occupied_count (board s)
                else occupied_count (board s') = occupied_count (board s)) \<and>
               occupied_count (board s') \<le> occupied_count (board s)))"
proof -
  have inv: "page_invariant s" by (rule reachable_invariant [OF assms])
  have "\<exists>s'. onSquareClick f r s = Inr s' \<and>
               (if (\<exists>src. sourceSquare s = Some src \<and> src \<noteq> \<lparr>file = f, rank = r\<rparr>) \<and>
                   is_occupied (board s) \<lparr>file = f, rank = r\<rparr>
                then occupied_count (board s') + 1 = occupied_count (board s)
                else occupied_count (board s') = occupied_count (board s)) \<and>
               occupied_count (board s') \<le> occupied_count (board s)"
    if l: "(f, r) \<in> set (rendered_listeners (body s))" for f r
  proof -
    obtain s' where s': "onSquareClick f r s = Inr s'"
      "if (\<exists>src. sourceSquare s = Some src \<and> src \<noteq> \<lparr>file = f, rank = r\<rparr>) \<and>
           is_occupied (board s) \<lparr>file = f, rank = r\<rparr>
       then occupied_count (board s') + 1 = occupied_count (board s)
       else occupied_count (board s') = occupied_count (board s)"
      using click_invariant [OF inv l] by blast
    have "occupied_count (board s') \<le> occupied_count (board s)"
      using s'(2) by (simp split: if_splits)
    then show ?thesis using s' by blast
  qed
  then show ?thesis using inv by (simp add: page_invariant_def)
qed

theorem occupied_count_never_increases_witness:
  "\<exists>s s'. reachable (createElement ''body'') s \<and>
       (4, 6) \<in> set (rendered_listeners (body s)) \<and>
       onSquareClick 4 6 s = Inr s' \<and>
       occupied_count (board s) = 32 \<and>
       occupied_count (board s') = 31"
proof -
  obtain s where s: "reachable (createElement ''body'') s"
    "board s = Board_new\<lparr>selectedSquare := Some \<lparr>file = 4, rank = 1\<rparr>\<rparr>"
    "sourceSquare s = Some \<lparr>file = 4, rank = 1\<rparr>"
    using armed_example by blast
  have l: "(4, 6) \<in> set (rendered_listeners (body s))"
    using reachable_invariant [OF s(1)] by (simp add: page_invariant_def)
  have c: "occupied_count (board s) = 32"
    by (simp add: s(2) occupied_count_Board_new)
  have occ: "is_occupied (board s) \<lparr>file = 4, rank = 6\<rparr>"
    by (simp add: s(2) is_occupied_def get_Board_new initial_piece_def)
  obtain s' where s': "onSquareClick 4 6 s = Inr s'"
    "occupied_count (board s') + 1 = occupied_count (board s)"
    using occupied_count_never_increases [OF s(1)] l s(3) occ by fastforce
  then have "occupied_count (board s') = 31" using c by simp
  then show ?thesis using s(1) l s'(1) c by blast
qed

end
